theory Spec2Isabelle
  imports Main "HOL-Library.Sublist"
begin

section \<open>Sequencing of fallible steps\<close>

text \<open>
  Both programs of the repository are straight-line sequences of calls to the outside world
  (a cloud provisioner, a Kubernetes cluster), each followed by a check that may end the
  run at once (\<^verbatim>\<open>os.Exit\<close>, \<^verbatim>\<open>t.Fatal\<close>, \<^verbatim>\<open>t.Skip\<close>, a panic).
  A step reads the history of events so far (the outside world may answer according to
  everything that has happened), and returns the events it adds together with
  \<open>None\<close> (fall through to the next statement) or \<open>Some x\<close> (the run ends with \<open>x\<close>).
\<close>

type_synonym ('e, 'x) step = "'e list \<Rightarrow> 'e list \<times> 'x option"

fun seq :: "('e, 'x) step list \<Rightarrow> ('e, 'x) step" where
  "seq [] h = ([], None)"
| "seq (s # ss) h =
     (case s h of
        (evs, None) \<Rightarrow> (case seq ss (h @ evs) of (evs', r) \<Rightarrow> (evs @ evs', r))
      | (evs, Some x) \<Rightarrow> (evs, Some x))"

definition skip :: "('e, 'x) step" where
  "skip h = ([], None)"

text \<open>The events of a kind, picked out of a list by a partial projection.\<close>

fun project :: "('e \<Rightarrow> 'm option) \<Rightarrow> 'e list \<Rightarrow> 'm list" where
  "project f [] = []"
| "project f (e # es) = (case f e of None \<Rightarrow> project f es | Some m \<Rightarrow> m # project f es)"

text \<open>
  A step conforms to a list \<open>ms\<close> when what it does (under the projection) is always a prefix
  of \<open>ms\<close>, and the whole of \<open>ms\<close> when it falls through.
\<close>

definition conforms :: "('e \<Rightarrow> 'm option) \<Rightarrow> ('e, 'x) step \<Rightarrow> 'm list \<Rightarrow> bool" where
  "conforms f s ms =
     (\<forall>h. prefix (project f (fst (s h))) ms \<and> (snd (s h) = None \<longrightarrow> project f (fst (s h)) = ms))"

text \<open>No event that is \<open>bad\<close> has an event that is an \<open>act\<close> anywhere after it.\<close>

fun nothing_after :: "('e \<Rightarrow> bool) \<Rightarrow> ('e \<Rightarrow> bool) \<Rightarrow> 'e list \<Rightarrow> bool" where
  "nothing_after bad act [] = True"
| "nothing_after bad act (e # es) = ((bad e \<longrightarrow> filter act es = []) \<and> nothing_after bad act es)"

text \<open>
  A result is safe when no bad event is followed by an act, and a bad event anywhere makes
  the run end with \<open>x\<close>.
\<close>

definition safe :: "('e \<Rightarrow> bool) \<Rightarrow> ('e \<Rightarrow> bool) \<Rightarrow> 'x \<Rightarrow> 'e list \<times> 'x option \<Rightarrow> bool" where
  "safe bad act x p =
     (nothing_after bad act (fst p) \<and> ((\<exists>e\<in>set (fst p). bad e) \<longrightarrow> snd p = Some x))"

type_synonym err = string

section \<open>The cluster provisioner CLI (cmd/cluster-provisioner/main.go)\<close>

text \<open>
  \<^verbatim>\<open>os.Stat\<close> on the image path: no error, an error for which \<^verbatim>\<open>os.IsNotExist\<close> holds,
  or any other error (which \<^verbatim>\<open>main\<close> ignores).
\<close>

datatype stat_result = StatOk | StatNotExist err | StatOther err

text \<open>
  What \<^verbatim>\<open>flag.Parse\<close> does with the command line: the flag set exits the process itself
  on a malformed command line or a help request, otherwise \<^verbatim>\<open>*action\<close> holds the value
  given (\<^verbatim>\<open>provision\<close> when the flag is absent).
\<close>

datatype flag_result = FlagExit int | Parsed string

type_synonym properties = "(string \<times> string) list"

datatype cli_event =
    GetCloudProvisioner string string "err option"
  | CreateVPC "err option"
  | CreateCluster "err option"
  | Stat string stat_result
  | UploadPodvm string "err option"
  | NewCloudAPIAdaptor string "err option"
  | GetProperties properties
  | Deploy properties "err option"
  | DeleteCluster "err option"
  | DeleteVPC "err option"
  | LogInfo string
  | LogError err
  | Println err

text \<open>
  The external provisioner package, the file system and the adaptor: each answer may depend
  on the history of calls.
\<close>

record cli_env =
  getCloudProvisioner :: "cli_event list \<Rightarrow> string \<Rightarrow> string \<Rightarrow> err option"
  createVPC :: "cli_event list \<Rightarrow> err option"
  createCluster :: "cli_event list \<Rightarrow> err option"
  os_Stat :: "cli_event list \<Rightarrow> string \<Rightarrow> stat_result"
  uploadPodvm :: "cli_event list \<Rightarrow> string \<Rightarrow> err option"
  newCloudAPIAdaptor :: "cli_event list \<Rightarrow> string \<Rightarrow> err option"
  getProperties :: "cli_event list \<Rightarrow> properties"
  deploy :: "cli_event list \<Rightarrow> properties \<Rightarrow> err option"
  deleteCluster :: "cli_event list \<Rightarrow> err option"
  deleteVPC :: "cli_event list \<Rightarrow> err option"

text \<open>The environment variables read at the start of \<^verbatim>\<open>main\<close>, and the command line.\<close>

record cli_input =
  cloudProvider :: string
  provisionPropsFile :: string
  podvmImage :: string
  flags :: flag_result

text \<open>\<^verbatim>\<open>if err := call; err != nil { report(err); os.Exit(1) }\<close>\<close>

definition exit_on_err ::
  "(err option \<Rightarrow> cli_event) \<Rightarrow> (err \<Rightarrow> cli_event) \<Rightarrow> err option \<Rightarrow> cli_event list \<times> int option" where
  "exit_on_err call report r =
     (case r of None \<Rightarrow> ([call r], None) | Some e \<Rightarrow> ([call r, report e], Some 1))"

definition log_info :: "string \<Rightarrow> (cli_event, int) step" where
  "log_info s h = ([LogInfo s], None)"

text \<open>
  \<^verbatim>\<open>if _, err := os.Stat(podvmImage); os.IsNotExist(err) { log.Error(err); os.Exit(1) }\<close>
\<close>

definition stat_image :: "cli_env \<Rightarrow> cli_input \<Rightarrow> (cli_event, int) step" where
  "stat_image env inp h =
     (case os_Stat env h (podvmImage inp) of
        StatNotExist e \<Rightarrow> ([Stat (podvmImage inp) (StatNotExist e), LogError e], Some 1)
      | r \<Rightarrow> ([Stat (podvmImage inp) r], None))"

definition upload_image :: "cli_env \<Rightarrow> cli_input \<Rightarrow> (cli_event, int) step" where
  "upload_image env inp =
     seq [log_info ''Uploading PodVM Image...'',
          stat_image env inp,
          (\<lambda>h. exit_on_err (UploadPodvm (podvmImage inp)) LogError (uploadPodvm env h (podvmImage inp)))]"

text \<open>
  \<^verbatim>\<open>cloudAPIAdaptor.Deploy(ctx, cfg, provisioner.GetProperties(ctx, cfg))\<close>: the argument
  is evaluated first.
\<close>

definition deploy_adaptor :: "cli_env \<Rightarrow> (cli_event, int) step" where
  "deploy_adaptor env h =
     (let props = getProperties env h in
      case exit_on_err (Deploy props) LogError (deploy env (h @ [GetProperties props]) props) of
        (evs, r) \<Rightarrow> (GetProperties props # evs, r))"

definition provision :: "cli_env \<Rightarrow> cli_input \<Rightarrow> (cli_event, int) step" where
  "provision env inp =
     seq [log_info ''Creating VPC...'',
          (\<lambda>h. exit_on_err CreateVPC Println (createVPC env h)),
          log_info ''Creating Cluster...'',
          (\<lambda>h. exit_on_err CreateCluster Println (createCluster env h)),
          (if podvmImage inp \<noteq> '''' then upload_image env inp else skip),
          (\<lambda>h. exit_on_err (NewCloudAPIAdaptor (cloudProvider inp)) LogError
                 (newCloudAPIAdaptor env h (cloudProvider inp))),
          deploy_adaptor env]"

definition deprovision :: "cli_env \<Rightarrow> (cli_event, int) step" where
  "deprovision env =
     seq [log_info ''Deleting Cluster...'',
          (\<lambda>h. exit_on_err DeleteCluster LogError (deleteCluster env h)),
          log_info ''Deleting VPC...'',
          (\<lambda>h. exit_on_err DeleteVPC LogError (deleteVPC env h))]"

definition dispatch :: "cli_env \<Rightarrow> cli_input \<Rightarrow> string \<Rightarrow> (cli_event, int) step" where
  "dispatch env inp action =
     seq [(if action = ''provision'' then provision env inp else skip),
          (if action = ''deprovision'' then deprovision env else skip),
          (if action = ''uploadimage'' then upload_image env inp else skip)]"

text \<open>
  \<^verbatim>\<open>main\<close>: the provisioner is looked up before the command line is parsed. The result is
  the events of the run and the argument of \<^verbatim>\<open>os.Exit\<close>, \<open>None\<close> when \<^verbatim>\<open>main\<close> returns.
\<close>

definition main :: "cli_env \<Rightarrow> cli_input \<Rightarrow> cli_event list \<times> int option" where
  "main env inp =
     (case exit_on_err (GetCloudProvisioner (cloudProvider inp) (provisionPropsFile inp)) LogError
             (getCloudProvisioner env [] (cloudProvider inp) (provisionPropsFile inp)) of
        (evs, Some c) \<Rightarrow> (evs, Some c)
      | (evs, None) \<Rightarrow>
          (case flags inp of
             FlagExit c \<Rightarrow> (evs, Some c)
           | Parsed action \<Rightarrow>
               (case dispatch env inp action evs of (evs', r) \<Rightarrow> (evs @ evs', r))))"

text \<open>The exit status of the process: 0 when \<^verbatim>\<open>main\<close> returns.\<close>

definition exit_code :: "int option \<Rightarrow> int" where
  "exit_code r = (case r of None \<Rightarrow> 0 | Some c \<Rightarrow> c)"

text \<open>The methods of the provisioner (and the adaptor's \<^verbatim>\<open>Deploy\<close>) among the events.\<close>

datatype provisioner_method =
  MCreateVPC | MCreateCluster | MUploadPodvm | MGetProperties | MDeploy | MDeleteCluster | MDeleteVPC

fun method_of :: "cli_event \<Rightarrow> provisioner_method option" where
  "method_of (CreateVPC r) = Some MCreateVPC"
| "method_of (CreateCluster r) = Some MCreateCluster"
| "method_of (UploadPodvm p r) = Some MUploadPodvm"
| "method_of (GetProperties ps) = Some MGetProperties"
| "method_of (Deploy ps r) = Some MDeploy"
| "method_of (DeleteCluster r) = Some MDeleteCluster"
| "method_of (DeleteVPC r) = Some MDeleteVPC"
| "method_of _ = None"

definition methods :: "cli_event list \<Rightarrow> provisioner_method list" where
  "methods evs = project method_of evs"

text \<open>A step of the action that failed: a call that returned an error, or a missing image file.\<close>

fun failed_step :: "cli_event \<Rightarrow> bool" where
  "failed_step (GetCloudProvisioner p f r) = (r \<noteq> None)"
| "failed_step (CreateVPC r) = (r \<noteq> None)"
| "failed_step (CreateCluster r) = (r \<noteq> None)"
| "failed_step (Stat p r) = (case r of StatNotExist e \<Rightarrow> True | _ \<Rightarrow> False)"
| "failed_step (UploadPodvm p r) = (r \<noteq> None)"
| "failed_step (NewCloudAPIAdaptor p r) = (r \<noteq> None)"
| "failed_step (Deploy ps r) = (r \<noteq> None)"
| "failed_step (DeleteCluster r) = (r \<noteq> None)"
| "failed_step (DeleteVPC r) = (r \<noteq> None)"
| "failed_step _ = False"

text \<open>A call to the outside world, as opposed to a line of the log.\<close>

fun is_call :: "cli_event \<Rightarrow> bool" where
  "is_call (LogInfo s) = False"
| "is_call (LogError e) = False"
| "is_call (Println e) = False"
| "is_call _ = True"

section \<open>Kubernetes objects (as far as the fixtures and the harness read them)\<close>

text \<open>
  \<^verbatim>\<open>metav1.ObjectMeta\<close>. The Go map \<^verbatim>\<open>Labels\<close> is an association list read with
  \<open>map_of\<close>; reading a missing key of a Go map gives the empty string.
\<close>

record objectMeta =
  Name :: string
  Namespace :: string
  Labels :: "(string \<times> string) list"

definition label :: "objectMeta \<Rightarrow> string \<Rightarrow> string" where
  "label m k = (case map_of (Labels m) k of None \<Rightarrow> '''' | Some v \<Rightarrow> v)"

datatype volumeSource = ConfigMapVolume string | SecretVolume string | HostPathVolume string

record container =
  cName :: string
  Image :: string
  Command :: "string list"
  Args :: "string list"
  VolumeMounts :: "(string \<times> string) list"
  Env :: "(string \<times> string) list"

record podSpec =
  Containers :: "container list"
  Volumes :: "(string \<times> volumeSource) list"
  RestartPolicy :: string
  DNSPolicy :: string
  RuntimeClassName :: "string option"

text \<open>
  \<^verbatim>\<open>Status.ContainerStatuses[k].State.Terminated\<close> is a pointer: \<open>None\<close> when it is nil (the
  container is waiting or running), otherwise its \<^verbatim>\<open>Reason\<close>.
\<close>

type_synonym containerStatus = "string option"

record pod =
  ObjectMeta :: objectMeta
  Spec :: podSpec
  ContainerStatuses :: "containerStatus list"

section \<open>Fixture builders (test/e2e/common.go)\<close>

text \<open>The four pod options of the file, as data; \<open>apply_option\<close> is the closure each returns.\<close>

datatype podOption =
    withRestartPolicy string
  | withCommand "string list"
  | withConfigMapBinding string string
  | withSecretBinding string string

text \<open>\<open>None\<close> is the index-out-of-range panic of \<^verbatim>\<open>p.Spec.Containers[0]\<close> on a pod with no container.\<close>

fun apply_option :: "podOption \<Rightarrow> pod \<Rightarrow> pod option" where
  "apply_option (withRestartPolicy restartPolicy) p =
     Some (p\<lparr>Spec := (Spec p)\<lparr>RestartPolicy := restartPolicy\<rparr>\<rparr>)"
| "apply_option (withCommand cmd) p =
     (case Containers (Spec p) of
        [] \<Rightarrow> None
      | c # cs \<Rightarrow> Some (p\<lparr>Spec := (Spec p)\<lparr>Containers := c\<lparr>Command := cmd\<rparr> # cs\<rparr>\<rparr>))"
| "apply_option (withConfigMapBinding mountPath configMapName) p =
     (case Containers (Spec p) of
        [] \<Rightarrow> None
      | c # cs \<Rightarrow>
          Some (p\<lparr>Spec := (Spec p)
            \<lparr>Containers := c\<lparr>VolumeMounts := VolumeMounts c @ [(''config-volume'', mountPath)]\<rparr> # cs,
             Volumes := Volumes (Spec p) @ [(''config-volume'', ConfigMapVolume configMapName)]\<rparr>\<rparr>))"
| "apply_option (withSecretBinding mountPath secretName) p =
     (case Containers (Spec p) of
        [] \<Rightarrow> None
      | c # cs \<Rightarrow>
          Some (p\<lparr>Spec := (Spec p)
            \<lparr>Containers := c\<lparr>VolumeMounts := VolumeMounts c @ [(''secret-volume'', mountPath)]\<rparr> # cs,
             Volumes := Volumes (Spec p) @ [(''secret-volume'', SecretVolume secretName)]\<rparr>\<rparr>))"

fun apply_options :: "podOption list \<Rightarrow> pod \<Rightarrow> pod option" where
  "apply_options [] p = Some p"
| "apply_options (option # options) p =
     (case apply_option option p of None \<Rightarrow> None | Some p' \<Rightarrow> apply_options options p')"

definition newContainer :: "string \<Rightarrow> string \<Rightarrow> container" where
  "newContainer containerName imageName =
     \<lparr>cName = containerName, Image = imageName, Command = [], Args = [], VolumeMounts = [], Env = []\<rparr>"

definition newPod :: "string \<Rightarrow> string \<Rightarrow> string \<Rightarrow> string \<Rightarrow> podOption list \<Rightarrow> pod option" where
  "newPod namespace podName containerName imageName options =
     (let runtimeClassName = ''kata-remote'' in
      apply_options options
        \<lparr>ObjectMeta = \<lparr>Name = podName, Namespace = namespace, Labels = []\<rparr>,
         Spec = \<lparr>Containers = [newContainer containerName imageName], Volumes = [],
                 RestartPolicy = '''', DNSPolicy = '''', RuntimeClassName = Some runtimeClassName\<rparr>,
         ContainerStatuses = []\<rparr>)"

definition newNginxPod :: "string \<Rightarrow> pod option" where
  "newNginxPod namespace = newPod namespace ''nginx'' ''nginx'' ''nginx'' [withRestartPolicy ''Never'']"

definition newBusyboxPod :: "string \<Rightarrow> pod option" where
  "newBusyboxPod namespace =
     newPod namespace ''busybox-pod'' ''busybox'' ''quay.io/prometheus/busybox:latest''
       [withCommand [''/bin/sh'', ''-c'', ''sleep 3600'']]"

definition newNginxPodWithConfigMap :: "string \<Rightarrow> string \<Rightarrow> pod option" where
  "newNginxPodWithConfigMap namespace configMapName =
     newPod namespace ''nginx-configmap-pod'' ''nginx-configmap'' ''nginx''
       [withRestartPolicy ''Never'', withConfigMapBinding ''/etc/config'' configMapName]"

definition newNginxPodWithSecret :: "string \<Rightarrow> string \<Rightarrow> pod option" where
  "newNginxPodWithSecret namespace secretName =
     newPod namespace ''nginx-secret-pod'' ''nginx-secret'' ''nginx''
       [withRestartPolicy ''Never'', withSecretBinding ''/etc/secret'' secretName]"

text \<open>\<^verbatim>\<open>newBuilderPod\<close> reads neither \<^verbatim>\<open>containerName\<close> nor \<^verbatim>\<open>runtimeclass\<close>.\<close>

definition newBuilderPod :: "string \<Rightarrow> string \<Rightarrow> string \<Rightarrow> string \<Rightarrow> string \<Rightarrow> string \<Rightarrow> pod" where
  "newBuilderPod namespace name containerName runtimeclass configmapname clusterIP =
     \<lparr>ObjectMeta = \<lparr>Name = name, Namespace = namespace, Labels = []\<rparr>,
      Spec = \<lparr>Containers =
                [\<lparr>cName = name, Image = ''gcr.io/kaniko-project/executor:latest'', Command = [],
                  Args = [''--custom-platform=linux/amd64'', ''--dockerfile=/build-context/Dockerfile'',
                          ''--context=dir:///build-context'',
                          ''--destination='' @ clusterIP @ '':5000/user-image:latest''],
                  VolumeMounts = [(configmapname, ''/'' @ configmapname)],
                  Env = [(''DOCKER_CONFIG'', ''/kaniko/.docker/''), (''DOCKER_CONTENT_TRUST'', ''1'')]\<rparr>],
              Volumes = [(configmapname, ConfigMapVolume configmapname)],
              RestartPolicy = ''Never'', DNSPolicy = '''', RuntimeClassName = None\<rparr>,
      ContainerStatuses = []\<rparr>"

definition newUserPod :: "string \<Rightarrow> string \<Rightarrow> string \<Rightarrow> string \<Rightarrow> string \<Rightarrow> pod" where
  "newUserPod namespace name containerName runtimeclass clusterIP =
     \<lparr>ObjectMeta = \<lparr>Name = name, Namespace = namespace, Labels = []\<rparr>,
      Spec = \<lparr>Containers = [newContainer containerName (clusterIP @ '':5000/user-image:latest'')],
              Volumes = [], RestartPolicy = ''Never'', DNSPolicy = ''ClusterFirst'',
              RuntimeClassName = Some runtimeclass\<rparr>,
      ContainerStatuses = []\<rparr>"


section \<open>The test case runner (test/e2e/common_suite_test.go)\<close>

subsection \<open>Data\<close>

record testCommand =
  command :: "string list"
  testCommandStdoutFn :: "string \<Rightarrow> bool"
  containerName :: "string"

text \<open>
  \<^verbatim>\<open>testCase\<close>: \<^verbatim>\<open>pod\<close> is never nil (both constructors set it; \<^verbatim>\<open>run\<close> starts by reading
  \<^verbatim>\<open>tc.pod.Name\<close>); a nil \<^verbatim>\<open>configMap\<close>, \<^verbatim>\<open>secret\<close> or \<^verbatim>\<open>job\<close> is \<open>None\<close>. The objects are
  used through their \<^verbatim>\<open>ObjectMeta\<close> only. The fields \<^verbatim>\<open>testing\<close> and \<^verbatim>\<open>assert\<close> are part
  of the environment below.
\<close>

record testCase =
  assessMessage :: string
  pod :: pod
  configMap :: "objectMeta option"
  secret :: "objectMeta option"
  job :: "objectMeta option"
  testCommands :: "testCommand list"

datatype obj = PodObj objectMeta | ConfigMapObj objectMeta | SecretObj objectMeta | JobObj objectMeta

text \<open>The argument of \<^verbatim>\<open>t.Fatal\<close>: an error of a call, or the error built from a command's output.\<close>

datatype fatal = FatalErr err | UnexpectedOutput "string list" string string

text \<open>What \<^verbatim>\<open>tc.assert.HasPodVM(t, name)\<close> does with \<^verbatim>\<open>t\<close>.\<close>

datatype assert_result = AssertOk | AssertErrorf | AssertFatal

text \<open>
  The object of a watch event: a \<^verbatim>\<open>*v1.Event\<close> with its \<^verbatim>\<open>Reason\<close>, or an object of another
  type, on which the type assertion \<^verbatim>\<open>event.Object.(*v1.Event)\<close> panics.
\<close>

datatype watch_object = EventObject string | OtherObject

text \<open>
  The result channel of a watch, as the receiver sees it: the events it delivers, until it
  is closed or until it blocks for good.
\<close>

datatype chan = Closed | Blocks | Recv watch_object chan

text \<open>Streaming the logs of a pod: \<^verbatim>\<open>req.Stream\<close> fails, \<^verbatim>\<open>io.Copy\<close> fails, or the text.\<close>

datatype logs_result = StreamError err | CopyError err | LogText string

datatype event =
    NewClient "err option"
  | Create obj "err option"
  | Delete obj "err option"
  | WaitJobCompleted objectMeta int "err option"
  | WaitPodRunning objectMeta int "err option"
  | ListPods string "err option"
  | HasPodVM string assert_result
  | ExecInPod string string string "string list" "err option"
  | TestCommandStdoutFn string bool
  | NewForConfig "err option"
  | WatchEvents string "err option"
  | WatcherStop
  | StreamLogs string string "err option"
  | CopyLogs "err option"
  | PodLogsClose
  | TLog "string list"
  | TErrorf string
  | TFatal fatal
  | TSkip string
  | LogInfof string "string list"
  | LogPrintf string "string list"

text \<open>
  The cluster, the cloud assertion and the standard library's \<^verbatim>\<open>strings.TrimSpace\<close>. Every
  answer of the cluster may depend on the history of events. \<^verbatim>\<open>ExecInPod\<close> answers with its
  error and what it wrote to the two buffers. A call of a command's \<^verbatim>\<open>testCommandStdoutFn\<close>
  is an event too, with the standard output it was given and its answer.
\<close>

record env =
  newClient :: "event list \<Rightarrow> err option"
  createObj :: "event list \<Rightarrow> obj \<Rightarrow> err option"
  deleteObj :: "event list \<Rightarrow> obj \<Rightarrow> err option"
  waitJobCompleted :: "event list \<Rightarrow> objectMeta \<Rightarrow> int \<Rightarrow> err option"
  waitPodRunning :: "event list \<Rightarrow> objectMeta \<Rightarrow> int \<Rightarrow> err option"
  listPods :: "event list \<Rightarrow> string \<Rightarrow> err + pod list"
  hasPodVM :: "event list \<Rightarrow> string \<Rightarrow> assert_result"
  execInPod :: "event list \<Rightarrow> string \<Rightarrow> string \<Rightarrow> string \<Rightarrow> string list \<Rightarrow> err option \<times> string \<times> string"
  newForConfig :: "event list \<Rightarrow> err option"
  watchEvents :: "event list \<Rightarrow> string \<Rightarrow> err + chan"
  streamLogs :: "event list \<Rightarrow> string \<Rightarrow> string \<Rightarrow> logs_result"
  trimSpace :: "string \<Rightarrow> string"

text \<open>
  How a step function can end other than by returning: \<^verbatim>\<open>t.FailNow\<close> (from \<^verbatim>\<open>t.Fatal\<close>),
  \<^verbatim>\<open>t.SkipNow\<close> (from \<^verbatim>\<open>t.Skip\<close>), a run-time panic, or never.
\<close>

datatype abort = FailNow | SkipNow | Panic | Blocked

text \<open>\<^verbatim>\<open>time.Second\<close> in nanoseconds, the unit of \<^verbatim>\<open>time.Duration\<close>.\<close>

definition Second :: int where
  "Second = 1000000000"

definition WAIT_POD_RUNNING_TIMEOUT :: int where
  "WAIT_POD_RUNNING_TIMEOUT = Second * 300"

text \<open>\<^verbatim>\<open>if err = call; err != nil { t.Fatal(err) }\<close>\<close>

definition fatal_on_err :: "(err option \<Rightarrow> event) \<Rightarrow> err option \<Rightarrow> event list \<times> abort option" where
  "fatal_on_err call r =
     (case r of None \<Rightarrow> ([call r], None) | Some e \<Rightarrow> ([call r, TFatal (FatalErr e)], Some FailNow))"

definition create :: "env \<Rightarrow> obj \<Rightarrow> (event, abort) step" where
  "create env ob h = fatal_on_err (Create ob) (createObj env h ob)"

definition delete :: "env \<Rightarrow> obj \<Rightarrow> (event, abort) step" where
  "delete env ob h = fatal_on_err (Delete ob) (deleteObj env h ob)"

definition log_infof :: "string \<Rightarrow> string list \<Rightarrow> (event, abort) step" where
  "log_infof fmt args h = ([LogInfof fmt args], None)"

text \<open>\<^verbatim>\<open>i.ObjectMeta.Labels["job-name"] == tc.job.Name\<close>\<close>

definition is_job_pod :: "objectMeta \<Rightarrow> pod \<Rightarrow> bool" where
  "is_job_pod j i = (label (ObjectMeta i) ''job-name'' = Name j)"

text \<open>
  \<^verbatim>\<open>i.Status.ContainerStatuses[0].State.Terminated.Reason\<close>: \<open>None\<close> is the panic of the index
  on an empty slice, or of the nil pointer.
\<close>

definition terminatedReason :: "pod \<Rightarrow> string option" where
  "terminatedReason i = (case ContainerStatuses i of [] \<Rightarrow> None | c # cs \<Rightarrow> c)"

subsection \<open>Setup\<close>

text \<open>A failed wait for the job is logged with \<^verbatim>\<open>t.Log\<close>, and setup goes on.\<close>

definition wait_job :: "env \<Rightarrow> objectMeta \<Rightarrow> (event, abort) step" where
  "wait_job env j h =
     (case waitJobCompleted env h j WAIT_POD_RUNNING_TIMEOUT of
        None \<Rightarrow> ([WaitJobCompleted j WAIT_POD_RUNNING_TIMEOUT None], None)
      | Some e \<Rightarrow> ([WaitJobCompleted j WAIT_POD_RUNNING_TIMEOUT (Some e), TLog [e]], None))"

definition wait_pod :: "env \<Rightarrow> objectMeta \<Rightarrow> (event, abort) step" where
  "wait_pod env p h =
     fatal_on_err (WaitPodRunning p WAIT_POD_RUNNING_TIMEOUT)
       (waitPodRunning env h p WAIT_POD_RUNNING_TIMEOUT)"

definition withSetup :: "env \<Rightarrow> testCase \<Rightarrow> (event, abort) step" where
  "withSetup env tc =
     seq [(\<lambda>h. fatal_on_err NewClient (newClient env h)),
          (case configMap tc of None \<Rightarrow> skip | Some cm \<Rightarrow> create env (ConfigMapObj cm)),
          (case secret tc of None \<Rightarrow> skip | Some s \<Rightarrow> create env (SecretObj s)),
          (case job tc of None \<Rightarrow> skip | Some j \<Rightarrow> create env (JobObj j)),
          (case job tc of None \<Rightarrow> create env (PodObj (ObjectMeta (pod tc))) | Some j \<Rightarrow> skip),
          (case job tc of None \<Rightarrow> skip | Some j \<Rightarrow> wait_job env j),
          (case job tc of None \<Rightarrow> wait_pod env (ObjectMeta (pod tc)) | Some j \<Rightarrow> skip)]"

subsection \<open>Assess, without a job\<close>

definition has_pod_vm :: "env \<Rightarrow> string \<Rightarrow> (event, abort) step" where
  "has_pod_vm env n h =
     (case hasPodVM env h n of
        AssertFatal \<Rightarrow> ([HasPodVM n AssertFatal], Some FailNow)
      | r \<Rightarrow> ([HasPodVM n r], None))"

text \<open>
  The inner loop over the listed pods, for one command. The two buffers are declared once
  per command, so they are passed along; \<^verbatim>\<open>ExecInPod\<close> appends to them.
\<close>

fun exec_in_pods ::
  "env \<Rightarrow> testCase \<Rightarrow> testCommand \<Rightarrow> pod list \<Rightarrow> string \<Rightarrow> string \<Rightarrow> (event, abort) step" where
  "exec_in_pods env tc c [] out errb h = ([], None)"
| "exec_in_pods env tc c (podItem # items) out errb h =
     (if Name (ObjectMeta podItem) = Name (ObjectMeta (pod tc)) then
        (case execInPod env h (Namespace (ObjectMeta (pod tc))) (Name (ObjectMeta (pod tc)))
                (containerName c) (command c) of
           (r, written_out, written_err) \<Rightarrow>
             (let ev = ExecInPod (Namespace (ObjectMeta (pod tc))) (Name (ObjectMeta (pod tc)))
                         (containerName c) (command c) r;
                  out' = out @ written_out;
                  errb' = errb @ written_err;
                  ok = testCommandStdoutFn c out'
              in case r of
                   Some e \<Rightarrow> ([ev, TLog [errb'], TFatal (FatalErr e)], Some FailNow)
                 | None \<Rightarrow>
                     if \<not> ok then
                       ([ev, TestCommandStdoutFn out' ok,
                         TFatal (UnexpectedOutput (command c) (containerName c) out')], Some FailNow)
                     else
                       (case exec_in_pods env tc c items out' errb'
                               (h @ [ev, TestCommandStdoutFn out' ok]) of
                          (evs, r') \<Rightarrow> (ev # TestCommandStdoutFn out' ok # evs, r'))))
      else exec_in_pods env tc c items out errb h)"

definition run_commands :: "env \<Rightarrow> testCase \<Rightarrow> pod list \<Rightarrow> (event, abort) step" where
  "run_commands env tc items =
     seq (map (\<lambda>c. exec_in_pods env tc c items [] []) (testCommands tc))"

definition assess_pod :: "env \<Rightarrow> testCase \<Rightarrow> pod list \<Rightarrow> (event, abort) step" where
  "assess_pod env tc items =
     seq [has_pod_vm env (Name (ObjectMeta (pod tc))), run_commands env tc items]"


subsection \<open>Assess, with a job\<close>

text \<open>
  The local variables of the job branch, and the calls deferred so far (\<^verbatim>\<open>defer\<close>), the
  latest first.
\<close>

record jobState =
  errorpod :: nat
  successpod :: nat
  podlogstring :: string
  deferred :: "event list"

text \<open>\<^verbatim>\<open>strings.Contains\<close>\<close>

fun contains :: "string \<Rightarrow> string \<Rightarrow> bool" where
  "contains [] sub = (sub = [])"
| "contains (c # cs) sub = (prefix sub (c # cs) \<or> contains cs sub)"

text \<open>
  The body of the first \<^verbatim>\<open>if\<close> of the loop. \<^verbatim>\<open>&&\<close> evaluates its right operand, which
  reads the container status, only for a pod of the job.
\<close>

definition count_error :: "objectMeta \<Rightarrow> pod \<Rightarrow> jobState \<Rightarrow> event list \<times> jobState \<times> abort option" where
  "count_error j i st =
     (if is_job_pod j i then
        (case terminatedReason i of
           None \<Rightarrow> ([], st, Some Panic)
         | Some reason \<Rightarrow>
             if reason = ''StartError'' then
               ([TLog [''WARNING:'', Name (ObjectMeta i), ''-'', reason]],
                st\<lparr>errorpod := errorpod st + 1\<rparr>, None)
             else ([], st, None))
      else ([], st, None))"

text \<open>The body of the watch loop once a \<^verbatim>\<open>Started\<close> event has arrived; it ends with \<^verbatim>\<open>break\<close>.\<close>

definition fetch_logs ::
  "env \<Rightarrow> objectMeta \<Rightarrow> pod \<Rightarrow> string \<Rightarrow> jobState \<Rightarrow> event list \<Rightarrow> event list \<times> jobState \<times> abort option" where
  "fetch_logs env j i reason st h =
     (case streamLogs env h (Namespace j) (Name (ObjectMeta i)) of
        StreamError e \<Rightarrow>
          ([StreamLogs (Namespace j) (Name (ObjectMeta i)) (Some e), TFatal (FatalErr e)], st, Some FailNow)
      | CopyError e \<Rightarrow>
          ([StreamLogs (Namespace j) (Name (ObjectMeta i)) None, CopyLogs (Some e), TFatal (FatalErr e)],
           st\<lparr>deferred := PodLogsClose # deferred st\<rparr>, Some FailNow)
      | LogText text \<Rightarrow>
          ([StreamLogs (Namespace j) (Name (ObjectMeta i)) None, CopyLogs None,
            TLog [''SUCCESS:'', Name (ObjectMeta i), ''-'', reason, ''- LOG:'', trimSpace env text]],
           st\<lparr>podlogstring := trimSpace env text, deferred := PodLogsClose # deferred st\<rparr>, None))"

text \<open>\<^verbatim>\<open>for event := range watcher.ResultChan()\<close>\<close>

fun watch_loop ::
  "env \<Rightarrow> objectMeta \<Rightarrow> pod \<Rightarrow> chan \<Rightarrow> jobState \<Rightarrow> event list \<Rightarrow> event list \<times> jobState \<times> abort option" where
  "watch_loop env j i Closed st h = ([], st, None)"
| "watch_loop env j i Blocks st h = ([], st, Some Blocked)"
| "watch_loop env j i (Recv OtherObject c) st h = ([], st, Some Panic)"
| "watch_loop env j i (Recv (EventObject eventReason) c) st h =
     (if eventReason = ''Started'' then
        (case terminatedReason i of
           None \<Rightarrow> ([], st, Some Panic)
         | Some reason \<Rightarrow>
             if reason = ''Completed'' then fetch_logs env j i reason st h
             else watch_loop env j i c st h)
      else watch_loop env j i c st h)"

text \<open>The body of the second \<^verbatim>\<open>if\<close> of the loop.\<close>

definition count_success ::
  "env \<Rightarrow> objectMeta \<Rightarrow> pod \<Rightarrow> jobState \<Rightarrow> event list \<Rightarrow> event list \<times> jobState \<times> abort option" where
  "count_success env j i st h =
     (if is_job_pod j i then
        (case terminatedReason i of
           None \<Rightarrow> ([], st, Some Panic)
         | Some reason \<Rightarrow>
             if reason = ''Completed'' then
               (case watchEvents env h (Namespace j) of
                  Inl e \<Rightarrow>
                    ([WatchEvents (Namespace j) (Some e), TFatal (FatalErr e)],
                     st\<lparr>successpod := successpod st + 1\<rparr>, Some FailNow)
                | Inr c \<Rightarrow>
                    (case watch_loop env j i c
                            (st\<lparr>successpod := successpod st + 1, deferred := WatcherStop # deferred st\<rparr>)
                            (h @ [WatchEvents (Namespace j) None]) of
                       (evs, st', r) \<Rightarrow> (WatchEvents (Namespace j) None # evs, st', r)))
             else ([], st, None))
      else ([], st, None))"

text \<open>\<^verbatim>\<open>for _, i := range podlist.Items\<close>\<close>

fun job_pods ::
  "env \<Rightarrow> objectMeta \<Rightarrow> pod list \<Rightarrow> jobState \<Rightarrow> event list \<Rightarrow> event list \<times> jobState \<times> abort option" where
  "job_pods env j [] st h = ([], st, None)"
| "job_pods env j (i # items) st h =
     (case count_error j i st of
        (evs1, st1, Some a) \<Rightarrow> (evs1, st1, Some a)
      | (evs1, st1, None) \<Rightarrow>
          (case count_success env j i st1 (h @ evs1) of
             (evs2, st2, Some a) \<Rightarrow> (evs1 @ evs2, st2, Some a)
           | (evs2, st2, None) \<Rightarrow>
               (case job_pods env j items st2 (h @ evs1 @ evs2) of
                  (evs3, st3, r) \<Rightarrow> (evs1 @ evs2 @ evs3, st3, r))))"

text \<open>The three checks after the loop. \<^verbatim>\<open>t.Errorf\<close> marks the test failed and goes on.\<close>

definition job_checks :: "pod list \<Rightarrow> jobState \<Rightarrow> event list \<times> abort option" where
  "job_checks items st =
     (let evs1 = (if errorpod st = length items \<and> successpod st = 0
                  then [TErrorf ''Job Failed to Start pod''] else [])
      in if successpod st = 1 \<and> errorpod st \<ge> 1 then
           (evs1 @ [TSkip ''Expected Completed status on all pods''], Some SkipNow)
         else if contains (podlogstring st) ''3.14'' then
           (evs1 @ [LogPrintf ''Output Log from Pod: %s'' [podlogstring st]], None)
         else
           (evs1 @ [TErrorf ''Job Created pod with Invalid log''], None))"

text \<open>
  The job branch. The deferred calls run when the function ends, by return, \<^verbatim>\<open>t.FailNow\<close>,
  \<^verbatim>\<open>t.SkipNow\<close> or panic; they do not when it never ends.
\<close>

definition assess_job :: "env \<Rightarrow> objectMeta \<Rightarrow> pod list \<Rightarrow> (event, abort) step" where
  "assess_job env j items h =
     (case newForConfig env h of
        Some e \<Rightarrow> ([NewForConfig (Some e), TFatal (FatalErr e)], Some FailNow)
      | None \<Rightarrow>
          (case job_pods env j items
                  \<lparr>errorpod = 0, successpod = 0, podlogstring = '''', deferred = []\<rparr>
                  (h @ [NewForConfig None]) of
             (evs, st, Some Blocked) \<Rightarrow> (NewForConfig None # evs, Some Blocked)
           | (evs, st, Some a) \<Rightarrow> (NewForConfig None # evs @ deferred st, Some a)
           | (evs, st, None) \<Rightarrow>
               (case job_checks items st of
                  (evs', r) \<Rightarrow> (NewForConfig None # evs @ evs' @ deferred st, r))))"

subsection \<open>Assess\<close>

definition assess :: "env \<Rightarrow> testCase \<Rightarrow> (event, abort) step" where
  "assess env tc h =
     (case listPods env h (Namespace (ObjectMeta (pod tc))) of
        Inl e \<Rightarrow>
          ([ListPods (Namespace (ObjectMeta (pod tc))) (Some e), TFatal (FatalErr e)], Some FailNow)
      | Inr items \<Rightarrow>
          (case seq [(case job tc of None \<Rightarrow> assess_pod env tc items | Some j \<Rightarrow> skip),
                     (case job tc of None \<Rightarrow> skip | Some j \<Rightarrow> assess_job env j items)]
                  (h @ [ListPods (Namespace (ObjectMeta (pod tc))) None]) of
             (evs, r) \<Rightarrow> (ListPods (Namespace (ObjectMeta (pod tc))) None # evs, r)))"

subsection \<open>Teardown\<close>

text \<open>The loop that deletes the pods of the job.\<close>

definition delete_job_pods :: "env \<Rightarrow> objectMeta \<Rightarrow> pod list \<Rightarrow> (event, abort) step" where
  "delete_job_pods env j items =
     seq (map (\<lambda>i. if is_job_pod j i then delete env (PodObj (ObjectMeta i)) else skip) items)"

text \<open>The statements of teardown that follow the listing of the pods.\<close>

definition teardown_steps :: "env \<Rightarrow> testCase \<Rightarrow> pod list \<Rightarrow> (event, abort) step list" where
  "teardown_steps env tc items =
     [(\<lambda>h. fatal_on_err NewClient (newClient env h)),
      (case job tc of
         None \<Rightarrow> seq [delete env (PodObj (ObjectMeta (pod tc))),
                      log_infof ''Deleting pod... %s'' [Name (ObjectMeta (pod tc))]]
       | Some j \<Rightarrow> skip),
      (case configMap tc of
         None \<Rightarrow> skip
       | Some cm \<Rightarrow> seq [delete env (ConfigMapObj cm),
                         log_infof ''Deleting Configmap... %s'' [Name cm]]),
      (case secret tc of
         None \<Rightarrow> skip
       | Some s \<Rightarrow> seq [delete env (SecretObj s),
                        log_infof ''Deleting Secret... %s'' [Name s]]),
      (case job tc of
         None \<Rightarrow> skip
       | Some j \<Rightarrow> seq [delete env (JobObj j),
                        log_infof ''Deleting Job... %s'' [Name j],
                        delete_job_pods env j items])]"

definition teardown :: "env \<Rightarrow> testCase \<Rightarrow> (event, abort) step" where
  "teardown env tc h =
     (case listPods env h (Namespace (ObjectMeta (pod tc))) of
        Inl e \<Rightarrow>
          ([ListPods (Namespace (ObjectMeta (pod tc))) (Some e), TFatal (FatalErr e)], Some FailNow)
      | Inr items \<Rightarrow>
          (case seq (teardown_steps env tc items)
                  (h @ [ListPods (Namespace (ObjectMeta (pod tc))) None]) of
             (evs, r) \<Rightarrow> (ListPods (Namespace (ObjectMeta (pod tc))) None # evs, r)))"

subsection \<open>The feature: setup, assessment, teardown\<close>

text \<open>
  Modelled from the spec: \<^verbatim>\<open>testEnv.Test\<close> belongs to the e2e-framework, which is not part of
  the sources. The three functions of the feature run in this order. Setup and teardown get
  the \<^verbatim>\<open>testing.T\<close> of the feature, so \<^verbatim>\<open>t.Fatal\<close> in setup ends the feature at once: neither
  assessment nor teardown follows. The assessment runs as a subtest of its own: however it ends
  (return, \<^verbatim>\<open>t.FailNow\<close>, \<^verbatim>\<open>t.SkipNow\<close>), teardown runs after it; only a panic, which ends
  the test process, or an assessment that never ends keeps teardown from running.
\<close>

record runResult =
  setup_result :: "event list \<times> abort option"
  assess_result :: "(event list \<times> abort option) option"
  teardown_result :: "(event list \<times> abort option) option"

definition run :: "env \<Rightarrow> testCase \<Rightarrow> runResult" where
  "run env tc =
     (case withSetup env tc [] of
        (s, Some a) \<Rightarrow> \<lparr>setup_result = (s, Some a), assess_result = None, teardown_result = None\<rparr>
      | (s, None) \<Rightarrow>
          (case assess env tc s of
             (a, r) \<Rightarrow>
               if r = Some Panic \<or> r = Some Blocked then
                 \<lparr>setup_result = (s, None), assess_result = Some (a, r), teardown_result = None\<rparr>
               else
                 \<lparr>setup_result = (s, None), assess_result = Some (a, r),
                  teardown_result = Some (teardown env tc (s @ a))\<rparr>))"

text \<open>All the events of a run, in order.\<close>

definition events_of :: "(event list \<times> abort option) option \<Rightarrow> event list" where
  "events_of r = (case r of None \<Rightarrow> [] | Some (evs, a) \<Rightarrow> evs)"

definition trace :: "runResult \<Rightarrow> event list" where
  "trace r = fst (setup_result r) @ events_of (assess_result r) @ events_of (teardown_result r)"

subsection \<open>The outcome of the assessment\<close>

text \<open>The events that mark the test failed.\<close>

fun marks_failed :: "event \<Rightarrow> bool" where
  "marks_failed (TErrorf m) = True"
| "marks_failed (TFatal f) = True"
| "marks_failed (HasPodVM n r) = (r \<noteq> AssertOk)"
| "marks_failed _ = False"

text \<open>
  What the test report says of the assessment. A test that was marked failed and then skipped
  is still reported as failed.
\<close>

datatype verdict = PASS | FAIL | SKIP | CRASH | HANG

definition verdict :: "event list \<times> abort option \<Rightarrow> verdict" where
  "verdict p =
     (if snd p = Some Panic then CRASH
      else if snd p = Some Blocked then HANG
      else if list_ex marks_failed (fst p) then FAIL
      else if snd p = Some SkipNow then SKIP
      else PASS)"


section \<open>Notions used in the statements\<close>

subsection \<open>Steps\<close>

text \<open>A step is clean when it adds no bad event whenever it falls through.\<close>

definition clean :: "('e \<Rightarrow> bool) \<Rightarrow> ('e, 'x) step \<Rightarrow> bool" where
  "clean bad s = (\<forall>h. snd (s h) = None \<longrightarrow> (\<forall>e\<in>set (fst (s h)). \<not> bad e))"

subsection \<open>The CLI\<close>

text \<open>The methods of a complete \<^verbatim>\<open>provision\<close> run, in the order of the source.\<close>

definition provision_methods :: "cli_input \<Rightarrow> provisioner_method list" where
  "provision_methods inp =
     [MCreateVPC, MCreateCluster] @ (if podvmImage inp \<noteq> '''' then [MUploadPodvm] else [])
       @ [MGetProperties, MDeploy]"

subsection \<open>Fixtures\<close>

definition runtimeClass :: "pod \<Rightarrow> string option" where
  "runtimeClass p = RuntimeClassName (Spec p)"

subsection \<open>Setup and teardown\<close>

text \<open>The statements of setup before its two waits.\<close>

definition creation_steps :: "env \<Rightarrow> testCase \<Rightarrow> (event, abort) step list" where
  "creation_steps env tc =
     [(\<lambda>h. fatal_on_err NewClient (newClient env h)),
      (case configMap tc of None \<Rightarrow> skip | Some cm \<Rightarrow> create env (ConfigMapObj cm)),
      (case secret tc of None \<Rightarrow> skip | Some s \<Rightarrow> create env (SecretObj s)),
      (case job tc of None \<Rightarrow> skip | Some j \<Rightarrow> create env (JobObj j)),
      (case job tc of None \<Rightarrow> create env (PodObj (ObjectMeta (pod tc))) | Some j \<Rightarrow> skip)]"

text \<open>The events of these statements: a client, a creation, or the fatal end.\<close>

fun creation_event :: "event \<Rightarrow> bool" where
  "creation_event (NewClient r) = True"
| "creation_event (Create ob r) = True"
| "creation_event (TFatal f) = True"
| "creation_event _ = False"



text \<open>A call of the cluster that returned an error.\<close>

fun failed_call :: "event \<Rightarrow> bool" where
  "failed_call (NewClient r) = (r \<noteq> None)"
| "failed_call (Create ob r) = (r \<noteq> None)"
| "failed_call (Delete ob r) = (r \<noteq> None)"
| "failed_call (WaitJobCompleted j t r) = (r \<noteq> None)"
| "failed_call (WaitPodRunning p t r) = (r \<noteq> None)"
| "failed_call (ListPods ns r) = (r \<noteq> None)"
| "failed_call (ExecInPod ns n cn cmd r) = (r \<noteq> None)"
| "failed_call (NewForConfig r) = (r \<noteq> None)"
| "failed_call (WatchEvents ns r) = (r \<noteq> None)"
| "failed_call (StreamLogs ns n r) = (r \<noteq> None)"
| "failed_call (CopyLogs r) = (r \<noteq> None)"
| "failed_call _ = False"









subsection \<open>Verification commands\<close>

fun is_exec :: "event \<Rightarrow> bool" where
  "is_exec (ExecInPod ns n cn cmd r) = True"
| "is_exec (TestCommandStdoutFn out ok) = True"
| "is_exec _ = False"





subsection \<open>Pods of a job\<close>

definition completed :: "objectMeta \<Rightarrow> pod \<Rightarrow> bool" where
  "completed j i = (is_job_pod j i \<and> terminatedReason i = Some ''Completed'')"

definition errored :: "objectMeta \<Rightarrow> pod \<Rightarrow> bool" where
  "errored j i = (is_job_pod j i \<and> terminatedReason i = Some ''StartError'')"

text \<open>
  What the loop over the pods leaves behind, whatever the cluster does: it never skips; it
  ends with \<^verbatim>\<open>t.FailNow\<close> only after an event that marks the test failed; it defers no
  such event; and when it runs to its end, no such event has happened and the two counters
  have grown by the numbers of errored and of completed pods of the job.
\<close>

definition tallied ::
  "objectMeta \<Rightarrow> pod list \<Rightarrow> jobState \<Rightarrow> event list \<times> jobState \<times> abort option \<Rightarrow> bool" where
  "tallied j items st res =
     (case res of (evs, st', r) \<Rightarrow>
        r \<noteq> Some SkipNow \<and>
        (r = Some FailNow \<longrightarrow> list_ex marks_failed evs) \<and>
        (list_ex marks_failed (deferred st') \<longrightarrow> list_ex marks_failed (deferred st)) \<and>
        (r = None \<longrightarrow>
           \<not> list_ex marks_failed evs \<and>
           errorpod st' = errorpod st + length (filter (errored j) items) \<and>
           successpod st' = successpod st + length (filter (completed j) items)))"

text \<open>
  An event stream that neither blocks nor delivers an object that is not an event before its
  first \<^verbatim>\<open>Started\<close> event or its end.
\<close>

fun benign :: "chan \<Rightarrow> bool" where
  "benign Closed = True"
| "benign Blocks = False"
| "benign (Recv OtherObject c) = False"
| "benign (Recv (EventObject reason) c) = (reason = ''Started'' \<or> benign c)"

text \<open>
  A cluster in which the job branch of the assessment meets no error: the clientset is built,
  every watch opens on a benign stream, every log is streamed.
\<close>

definition job_calls_succeed :: "env \<Rightarrow> bool" where
  "job_calls_succeed env =
     ((\<forall>h. newForConfig env h = None) \<and>
      (\<forall>h ns. \<exists>c. watchEvents env h ns = Inr c \<and> benign c) \<and>
      (\<forall>h ns n. \<exists>text. streamLogs env h ns n = LogText text))"


section \<open>Concrete inputs\<close>

subsection \<open>The CLI\<close>

text \<open>A provisioner, a file system and an adaptor with which every call succeeds.\<close>

definition cli_ok :: cli_env where
  "cli_ok =
     \<lparr>getCloudProvisioner = (\<lambda>h p f. None), createVPC = (\<lambda>h. None), createCluster = (\<lambda>h. None),
      os_Stat = (\<lambda>h p. StatOk), uploadPodvm = (\<lambda>h p. None), newCloudAPIAdaptor = (\<lambda>h p. None),
      getProperties = (\<lambda>h. [(''CLUSTER_NAME'', ''e2e'')]), deploy = (\<lambda>h ps. None),
      deleteCluster = (\<lambda>h. None), deleteVPC = (\<lambda>h. None)\<rparr>"

text \<open>The same, but the cluster cannot be created.\<close>

definition cli_no_cluster :: cli_env where
  "cli_no_cluster = cli_ok\<lparr>createCluster := (\<lambda>h. Some ''quota exceeded'')\<rparr>"

text \<open>The same as \<open>cli_ok\<close>, but no file exists.\<close>

definition cli_no_image :: cli_env where
  "cli_no_image = cli_ok\<lparr>os_Stat := (\<lambda>h p. StatNotExist ''no such file or directory'')\<rparr>"

definition cli_input_of :: "string \<Rightarrow> string \<Rightarrow> cli_input" where
  "cli_input_of img action =
     \<lparr>cloudProvider = ''ibmcloud'', provisionPropsFile = ''/root/provision_ibmcloud.properties'',
      podvmImage = img, flags = Parsed action\<rparr>"

subsection \<open>Test cases and clusters\<close>

text \<open>The case of \<^verbatim>\<open>doTestCreatePodWithConfigMap\<close>, in the namespace \<^verbatim>\<open>default\<close>.\<close>

definition nginx_config :: objectMeta where
  "nginx_config = \<lparr>Name = ''nginx-config'', Namespace = ''default'', Labels = []\<rparr>"

definition tc_configmap :: testCase where
  "tc_configmap =
     \<lparr>assessMessage = ''Configmap is created and contains data'',
      pod = the (newNginxPodWithConfigMap ''default'' ''nginx-config''),
      configMap = Some nginx_config, secret = None, job = None,
      testCommands =
        [\<lparr>command = [''cat'', ''/etc/config/example.txt''],
          testCommandStdoutFn = (\<lambda>stdout. stdout = ''Hello, world''),
          containerName = ''nginx-configmap''\<rparr>]\<rparr>"

text \<open>The case of \<^verbatim>\<open>doTestCreatePeerPodWithJob\<close> (\<^verbatim>\<open>newTestCasewithJob\<close>), likewise.\<close>

definition job_pi :: objectMeta where
  "job_pi = \<lparr>Name = ''job-pi'', Namespace = ''default'', Labels = []\<rparr>"

definition tc_job :: testCase where
  "tc_job =
     \<lparr>assessMessage = ''Job has been created'',
      pod = \<lparr>ObjectMeta = \<lparr>Name = ''job-pi'', Namespace = ''default'', Labels = []\<rparr>,
             Spec = \<lparr>Containers = [], Volumes = [], RestartPolicy = '''', DNSPolicy = '''',
                     RuntimeClassName = None\<rparr>,
             ContainerStatuses = []\<rparr>,
      configMap = None, secret = None, job = Some job_pi, testCommands = []\<rparr>"

text \<open>A pod of the job \<^verbatim>\<open>job-pi\<close>, whose only container has terminated with the given reason.\<close>

definition job_pod :: "string \<Rightarrow> string \<Rightarrow> pod" where
  "job_pod podName reason =
     \<lparr>ObjectMeta = \<lparr>Name = podName, Namespace = ''default'', Labels = [(''job-name'', ''job-pi'')]\<rparr>,
      Spec = \<lparr>Containers = [], Volumes = [], RestartPolicy = ''Never'', DNSPolicy = '''',
              RuntimeClassName = Some ''kata-remote''\<rparr>,
      ContainerStatuses = [Some reason]\<rparr>"

text \<open>
  A cluster that lists the given pods and in which every call succeeds: a command prints
  \<^verbatim>\<open>Hello, world\<close>, a watch delivers a \<^verbatim>\<open>Started\<close> event, the log of a pod is \<^verbatim>\<open>3.14159\<close>.
\<close>

definition cluster :: "pod list \<Rightarrow> env" where
  "cluster items =
     \<lparr>newClient = (\<lambda>h. None), createObj = (\<lambda>h ob. None), deleteObj = (\<lambda>h ob. None),
      waitJobCompleted = (\<lambda>h j t. None), waitPodRunning = (\<lambda>h p t. None),
      listPods = (\<lambda>h ns. Inr items), hasPodVM = (\<lambda>h n. AssertOk),
      execInPod = (\<lambda>h ns n cn cmd. (None, ''Hello, world'', '''')),
      newForConfig = (\<lambda>h. None),
      watchEvents = (\<lambda>h ns. Inr (Recv (EventObject ''Scheduled'') (Recv (EventObject ''Started'') Closed))),
      streamLogs = (\<lambda>h ns n. LogText ''3.14159''),
      trimSpace = (\<lambda>s. s)\<rparr>"

definition nginx_listed :: "pod list" where
  "nginx_listed = [(the (newNginxPodWithConfigMap ''default'' ''nginx-config''))\<lparr>ContainerStatuses := [None]\<rparr>]"

definition one_of_two_completed :: "pod list" where
  "one_of_two_completed = [job_pod ''job-pi-x7k2p'' ''StartError'', job_pod ''job-pi-9fjq4'' ''Completed'']"


text \<open>Clusters in which a wait of setup times out.\<close>

definition pod_never_runs :: env where
  "pod_never_runs = (cluster [])\<lparr>waitPodRunning := (\<lambda>h p t. Some ''timed out'')\<rparr>"

definition job_never_completes :: env where
  "job_never_completes = (cluster [])\<lparr>waitJobCompleted := (\<lambda>h j t. Some ''timed out'')\<rparr>"




text \<open>The case of \<^verbatim>\<open>doTestCreatePodWithSecret\<close>, with its two commands.\<close>

definition nginx_secret :: objectMeta where
  "nginx_secret = \<lparr>Name = ''nginx-secret'', Namespace = ''default'', Labels = []\<rparr>"

definition tc_secret :: testCase where
  "tc_secret =
     \<lparr>assessMessage = ''Secret has been created and contains data'',
      pod = the (newNginxPodWithSecret ''default'' ''nginx-secret''),
      configMap = None, secret = Some nginx_secret, job = None,
      testCommands =
        [\<lparr>command = [''cat'', ''/etc/secret/username''],
          testCommandStdoutFn = (\<lambda>stdout. stdout = ''admin''),
          containerName = ''nginx-secret''\<rparr>,
         \<lparr>command = [''cat'', ''/etc/secret/password''],
          testCommandStdoutFn = (\<lambda>stdout. stdout = ''password''),
          containerName = ''nginx-secret''\<rparr>]\<rparr>"






text \<open>A cluster in which no watch on the events can be opened.\<close>

definition watch_fails :: env where
  "watch_fails = (cluster one_of_two_completed)\<lparr>watchEvents := (\<lambda>h ns. Inl ''too many requests'')\<rparr>"

definition all_errored :: "pod list" where
  "all_errored = [job_pod ''job-pi-x7k2p'' ''StartError'', job_pod ''job-pi-m2c8d'' ''StartError'']"

section \<open>Proofs\<close>


subsection \<open>Sequences of steps\<close>

lemma seq_Cons_cases:
  obtains (stop) evs x where "s h = (evs, Some x)" "seq (s # ss) h = (evs, Some x)"
  | (go) evs evs' r where "s h = (evs, None)" "seq ss (h @ evs) = (evs', r)"
      "seq (s # ss) h = (evs @ evs', r)"
proof (cases "s h")
  case (Pair evs r)
  show ?thesis
  proof (cases r)
    case None
    obtain evs' r' where "seq ss (h @ evs) = (evs', r')" by (cases "seq ss (h @ evs)")
    with Pair None show ?thesis using go by simp
  next
    case (Some x)
    with Pair show ?thesis using stop by simp
  qed
qed

lemma seq_all:
  "(\<And>s h. s \<in> set ss \<Longrightarrow> \<forall>e\<in>set (fst (s h)). P e) \<Longrightarrow> \<forall>e\<in>set (fst (seq ss h)). P e"
proof (induction ss arbitrary: h)
  case Nil
  show ?case by simp
next
  case (Cons s ss)
  have s: "\<forall>e\<in>set (fst (s h)). P e" by (rule Cons.prems) simp
  show ?case
  proof (cases rule: seq_Cons_cases[of s h ss])
    case (stop evs x)
    with s show ?thesis by simp
  next
    case (go evs evs' r)
    have "\<forall>e\<in>set (fst (seq ss (h @ evs))). P e"
    proof (rule Cons.IH)
      fix s' h' assume "s' \<in> set ss"
      then show "\<forall>e\<in>set (fst (s' h')). P e" using Cons.prems[of s' h'] by simp
    qed
    with s go show ?thesis by auto
  qed
qed

text \<open>When a sequence falls through, every step of it has fallen through, and its events are there.\<close>

lemma seq_None_mem:
  "snd (seq ss h) = None \<Longrightarrow> s \<in> set ss \<Longrightarrow>
     \<exists>h'. snd (s h') = None \<and> set (fst (s h')) \<subseteq> set (fst (seq ss h))"
proof (induction ss arbitrary: h)
  case Nil
  then show ?case by simp
next
  case (Cons s' ss)
  show ?case
  proof (cases rule: seq_Cons_cases[of s' h ss])
    case (stop evs x)
    with Cons.prems show ?thesis by simp
  next
    case (go evs evs' r)
    with Cons.prems(1) have r: "r = None" by simp
    show ?thesis
    proof (cases "s = s'")
      case True
      with go show ?thesis by (intro exI[of _ h]) simp
    next
      case False
      with Cons.prems(2) have "s \<in> set ss" by simp
      from Cons.IH[OF _ this, of "h @ evs"] go r
      obtain h' where "snd (s h') = None" "set (fst (s h')) \<subseteq> set evs'" by auto
      with go show ?thesis by (intro exI[of _ h']) auto
    qed
  qed
qed

lemma seq_None_all:
  "(\<And>s h. s \<in> set ss \<Longrightarrow> snd (s h) = None \<Longrightarrow> \<forall>e\<in>set (fst (s h)). P e) \<Longrightarrow>
   snd (seq ss h) = None \<Longrightarrow> \<forall>e\<in>set (fst (seq ss h)). P e"
proof (induction ss arbitrary: h)
  case Nil
  show ?case by simp
next
  case (Cons s ss)
  show ?case
  proof (cases rule: seq_Cons_cases[of s h ss])
    case (stop evs x)
    with Cons.prems(2) show ?thesis by simp
  next
    case (go evs evs' r)
    with Cons.prems(2) have r: "r = None" by simp
    have 1: "\<forall>e\<in>set evs. P e" using Cons.prems(1)[of s h] go(1) by simp
    have "\<forall>e\<in>set (fst (seq ss (h @ evs))). P e"
    proof (rule Cons.IH)
      fix s' h' assume "s' \<in> set ss" "snd (s' h') = None"
      then show "\<forall>e\<in>set (fst (s' h')). P e" using Cons.prems(1)[of s' h'] by simp
    next
      show "snd (seq ss (h @ evs)) = None" using go(2) r by simp
    qed
    with 1 go show ?thesis by auto
  qed
qed

lemma seq_append:
  "seq (ss @ ts) h =
     (case seq ss h of
        (evs, None) \<Rightarrow> (case seq ts (h @ evs) of (evs', r) \<Rightarrow> (evs @ evs', r))
      | (evs, Some x) \<Rightarrow> (evs, Some x))"
proof (induction ss arbitrary: h)
  case Nil
  show ?case by (simp split: prod.splits)
next
  case (Cons s ss)
  show ?case
  proof (cases rule: seq_Cons_cases[of s h ss])
    case (stop evs x)
    then show ?thesis by simp
  next
    case (go evs evs' r)
    then show ?thesis using Cons.IH[of "h @ evs"]
      by (cases r) (simp_all split: prod.splits)
  qed
qed

subsection \<open>Projections and conformance\<close>

lemma project_append: "project f (a @ b) = project f a @ project f b"
  by (induction a) (simp_all split: option.splits)


lemma conforms_seq_Nil: "conforms f (seq []) []"
  by (simp add: conforms_def)

lemma conforms_seq_Cons:
  assumes "conforms f s ms" "conforms f (seq ss) ms'"
  shows "conforms f (seq (s # ss)) (ms @ ms')"
  unfolding conforms_def
proof
  fix h
  show "prefix (project f (fst (seq (s # ss) h))) (ms @ ms') \<and>
        (snd (seq (s # ss) h) = None \<longrightarrow> project f (fst (seq (s # ss) h)) = ms @ ms')"
  proof (cases rule: seq_Cons_cases[of s h ss])
    case (stop evs x)
    with assms(1) show ?thesis by (auto simp: conforms_def dest!: spec[of _ h])
  next
    case (go evs evs' r)
    from assms(1) go(1) have 1: "project f evs = ms"
      by (auto simp: conforms_def dest!: spec[of _ h])
    from assms(2) go(2) have 2: "prefix (project f evs') ms'" "r = None \<longrightarrow> project f evs' = ms'"
      by (auto simp: conforms_def dest!: spec[of _ "h @ evs"])
    show ?thesis using 1 2 go(3) by (simp add: project_append)
  qed
qed


lemma conforms_skip: "conforms f skip []"
  by (simp add: conforms_def skip_def)

subsection \<open>Nothing after a failure\<close>

lemma nothing_after_append:
  "\<forall>e\<in>set a. \<not> bad e \<Longrightarrow> nothing_after bad act (a @ b) = nothing_after bad act b"
  by (induction a) simp_all

lemma nothing_after_split:
  "nothing_after bad act (pre @ e # post) \<Longrightarrow> bad e \<Longrightarrow> filter act post = []"
  by (induction pre) simp_all

lemma safe_seq:
  "(\<And>s h. s \<in> set ss \<Longrightarrow> safe bad act x (s h)) \<Longrightarrow> safe bad act x (seq ss h)"
proof (induction ss arbitrary: h)
  case Nil
  show ?case by (simp add: safe_def)
next
  case (Cons s ss)
  have s: "safe bad act x (s h)" by (rule Cons.prems) simp
  show ?case
  proof (cases rule: seq_Cons_cases[of s h ss])
    case (stop evs y)
    with s show ?thesis by simp
  next
    case (go evs evs' r)
    from s go(1) have 1: "\<forall>e\<in>set evs. \<not> bad e" by (auto simp: safe_def)
    have "safe bad act x (seq ss (h @ evs))"
    proof (rule Cons.IH)
      fix s' h' assume "s' \<in> set ss"
      then show "safe bad act x (s' h')" using Cons.prems[of s' h'] by simp
    qed
    with go(2) have 2: "safe bad act x (evs', r)" by simp
    show ?thesis using 1 2 go(3) by (auto simp: safe_def nothing_after_append)
  qed
qed

lemma safe_skip: "safe bad act x (skip h)"
  by (simp add: safe_def skip_def)

lemma safe_Cons:
  "\<not> bad e \<Longrightarrow> safe bad act x (evs, r) \<Longrightarrow> safe bad act x (e # evs, r)"
  by (simp add: safe_def)

text \<open>An event of a list that is not in its first part lies behind it.\<close>

lemma append_eq_split_behind:
  "xs @ ys = pre @ e # post \<Longrightarrow> e \<notin> set xs \<Longrightarrow> \<exists>pre'. pre = xs @ pre'"
  by (auto simp: append_eq_append_conv2 append_eq_Cons_conv)


subsection \<open>The CLI: order of the provisioner's methods\<close>

lemma conforms_log_info: "conforms method_of (log_info s) []"
  by (simp add: conforms_def log_info_def)

lemma conforms_exit_on_err:
  assumes "\<And>r. method_of (call r) = Some m" "\<And>e. method_of (report e) = None"
  shows "conforms method_of (\<lambda>h. exit_on_err call report (f h)) [m]"
  using assms by (auto simp: conforms_def exit_on_err_def split: option.splits)

lemma conforms_exit_on_err_none:
  assumes "\<And>r. method_of (call r) = None" "\<And>e. method_of (report e) = None"
  shows "conforms method_of (\<lambda>h. exit_on_err call report (f h)) []"
  using assms by (auto simp: conforms_def exit_on_err_def split: option.splits)

lemma conforms_stat_image: "conforms method_of (stat_image env inp) []"
  by (auto simp: conforms_def stat_image_def split: stat_result.splits)

lemma conforms_upload_image: "conforms method_of (upload_image env inp) [MUploadPodvm]"
proof -
  have "conforms method_of (upload_image env inp) ([] @ [] @ [MUploadPodvm] @ [])"
    unfolding upload_image_def
    by (intro conforms_seq_Cons conforms_seq_Nil conforms_log_info conforms_stat_image
          conforms_exit_on_err) simp_all
  then show ?thesis by simp
qed

lemma conforms_deploy_adaptor: "conforms method_of (deploy_adaptor env) [MGetProperties, MDeploy]"
  by (auto simp: conforms_def deploy_adaptor_def exit_on_err_def Let_def split: option.splits)

lemma conforms_provision: "conforms method_of (provision env inp) (provision_methods inp)"
proof -
  have up: "conforms method_of (if podvmImage inp \<noteq> '''' then upload_image env inp else skip)
              (if podvmImage inp \<noteq> '''' then [MUploadPodvm] else [])"
    by (simp add: conforms_upload_image conforms_skip)
  have ad: "conforms method_of (\<lambda>h. exit_on_err (NewCloudAPIAdaptor (cloudProvider inp)) LogError
                 (newCloudAPIAdaptor env h (cloudProvider inp))) []"
    by (rule conforms_exit_on_err_none) simp_all
  have vpc: "conforms method_of (\<lambda>h. exit_on_err CreateVPC Println (createVPC env h)) [MCreateVPC]"
    by (rule conforms_exit_on_err) simp_all
  have cl: "conforms method_of (\<lambda>h. exit_on_err CreateCluster Println (createCluster env h))
              [MCreateCluster]"
    by (rule conforms_exit_on_err) simp_all
  have "conforms method_of (provision env inp)
     ([] @ [MCreateVPC] @ [] @ [MCreateCluster]
        @ (if podvmImage inp \<noteq> '''' then [MUploadPodvm] else []) @ [] @ [MGetProperties, MDeploy] @ [])"
    unfolding provision_def
    by (intro conforms_seq_Cons conforms_seq_Nil conforms_log_info vpc cl up ad
          conforms_deploy_adaptor)
  then show ?thesis by (simp add: provision_methods_def)
qed

lemma conforms_deprovision: "conforms method_of (deprovision env) [MDeleteCluster, MDeleteVPC]"
proof -
  have "conforms method_of (deprovision env) ([] @ [MDeleteCluster] @ [] @ [MDeleteVPC] @ [])"
    unfolding deprovision_def
    by (intro conforms_seq_Cons conforms_seq_Nil conforms_log_info conforms_exit_on_err) simp_all
  then show ?thesis by simp
qed

lemma conforms_dispatch_provision:
  "conforms method_of (dispatch env inp ''provision'') (provision_methods inp)"
proof -
  have 1: "conforms method_of (if ''provision'' = ''provision'' then provision env inp else skip)
             (provision_methods inp)"
    using conforms_provision[of env inp] by simp
  have 2: "conforms method_of (if ''provision'' = ''deprovision'' then deprovision env else skip) []"
    by (simp add: conforms_skip)
  have 3: "conforms method_of (if ''provision'' = ''uploadimage'' then upload_image env inp else skip) []"
    by (simp add: conforms_skip)
  have "conforms method_of (dispatch env inp ''provision'') (provision_methods inp @ [] @ [] @ [])"
    unfolding dispatch_def
    by (intro conforms_seq_Cons conforms_seq_Nil 1 2 3)
  then show ?thesis by simp
qed

lemma conforms_dispatch_deprovision:
  "conforms method_of (dispatch env inp ''deprovision'') [MDeleteCluster, MDeleteVPC]"
proof -
  have "conforms method_of (dispatch env inp ''deprovision'') ([] @ [MDeleteCluster, MDeleteVPC] @ [] @ [])"
    unfolding dispatch_def
    by (intro conforms_seq_Cons conforms_seq_Nil) (simp_all add: conforms_deprovision conforms_skip)
  then show ?thesis by simp
qed

lemmas cli_defs = main_def dispatch_def provision_def deprovision_def upload_image_def
  stat_image_def deploy_adaptor_def exit_on_err_def log_info_def skip_def Let_def

lemma main_parsed:
  assumes "flags inp = Parsed a"
  shows "methods (fst (main env inp)) =
           (case getCloudProvisioner env [] (cloudProvider inp) (provisionPropsFile inp) of
              None \<Rightarrow> methods (fst (dispatch env inp a
                        [GetCloudProvisioner (cloudProvider inp) (provisionPropsFile inp) None]))
            | Some e \<Rightarrow> [])"
    and "snd (main env inp) = None \<Longrightarrow>
           getCloudProvisioner env [] (cloudProvider inp) (provisionPropsFile inp) = None \<and>
           snd (dispatch env inp a
                  [GetCloudProvisioner (cloudProvider inp) (provisionPropsFile inp) None]) = None"
  using assms
  by (auto simp: main_def exit_on_err_def methods_def project_append split: option.splits prod.splits)

text \<open>
  C8. Under \<^verbatim>\<open>-action=provision\<close> the methods invoked are, in this order, create VPC, create
  cluster, upload the image (exactly when the image path is not empty), get properties and
  deploy: always a prefix of this list, and the whole list when \<^verbatim>\<open>main\<close> returns. Under
  \<^verbatim>\<open>-action=deprovision\<close> they are delete cluster, then delete VPC.
\<close>

theorem provision_order:
  "(flags inp = Parsed ''provision'' \<longrightarrow>
      prefix (methods (fst (main env inp)))
        ([MCreateVPC, MCreateCluster] @ (if podvmImage inp \<noteq> '''' then [MUploadPodvm] else [])
          @ [MGetProperties, MDeploy]) \<and>
      (snd (main env inp) = None \<longrightarrow>
         methods (fst (main env inp)) =
           [MCreateVPC, MCreateCluster] @ (if podvmImage inp \<noteq> '''' then [MUploadPodvm] else [])
             @ [MGetProperties, MDeploy])) \<and>
   (flags inp = Parsed ''deprovision'' \<longrightarrow>
      prefix (methods (fst (main env inp))) [MDeleteCluster, MDeleteVPC] \<and>
      (snd (main env inp) = None \<longrightarrow> methods (fst (main env inp)) = [MDeleteCluster, MDeleteVPC]))"
proof (intro conjI impI)
  let ?ms = "[MCreateVPC, MCreateCluster] @ (if podvmImage inp \<noteq> '''' then [MUploadPodvm] else [])
          @ [MGetProperties, MDeploy]"
  {
    assume a: "flags inp = Parsed ''provision''"
    show "prefix (methods (fst (main env inp))) ?ms"
      using conforms_dispatch_provision[of env inp] main_parsed(1)[OF a, of env]
      by (cases "getCloudProvisioner env [] (cloudProvider inp) (provisionPropsFile inp)")
         (simp_all add: conforms_def methods_def provision_methods_def)
    assume "snd (main env inp) = None"
    then show "methods (fst (main env inp)) = ?ms"
      using conforms_dispatch_provision[of env inp] main_parsed[OF a, of env]
      by (simp add: conforms_def methods_def provision_methods_def)
  }
  {
    assume a: "flags inp = Parsed ''deprovision''"
    show "prefix (methods (fst (main env inp))) [MDeleteCluster, MDeleteVPC]"
      using conforms_dispatch_deprovision[of env inp] main_parsed(1)[OF a, of env]
      by (cases "getCloudProvisioner env [] (cloudProvider inp) (provisionPropsFile inp)")
         (simp_all add: conforms_def methods_def)
    assume "snd (main env inp) = None"
    then show "methods (fst (main env inp)) = [MDeleteCluster, MDeleteVPC]"
      using conforms_dispatch_deprovision[of env inp] main_parsed[OF a, of env]
      by (simp add: conforms_def methods_def)
  }
qed

theorem provision_order_witness:
  "flags (cli_input_of ''podvm.qcow2'' ''provision'') = Parsed ''provision'' \<and>
   snd (main cli_ok (cli_input_of ''podvm.qcow2'' ''provision'')) = None \<and>
   methods (fst (main cli_ok (cli_input_of ''podvm.qcow2'' ''provision''))) =
     [MCreateVPC, MCreateCluster, MUploadPodvm, MGetProperties, MDeploy] \<and>
   flags (cli_input_of '''' ''deprovision'') = Parsed ''deprovision'' \<and>
   snd (main cli_ok (cli_input_of '''' ''deprovision'')) = None \<and>
   methods (fst (main cli_ok (cli_input_of '''' ''deprovision''))) = [MDeleteCluster, MDeleteVPC]"
proof -
  have 1: "flags (cli_input_of ''podvm.qcow2'' ''provision'') = Parsed ''provision''"
    and 2: "flags (cli_input_of '''' ''deprovision'') = Parsed ''deprovision''"
    by (simp_all add: cli_input_of_def)
  have 3: "snd (main cli_ok (cli_input_of ''podvm.qcow2'' ''provision'')) = None"
    by (simp add: cli_defs cli_input_of_def cli_ok_def)
  have 4: "snd (main cli_ok (cli_input_of '''' ''deprovision'')) = None"
    by (simp add: cli_defs cli_input_of_def cli_ok_def)
  have 5: "podvmImage (cli_input_of ''podvm.qcow2'' ''provision'') \<noteq> ''''"
    by (simp add: cli_input_of_def)
  show ?thesis
    using 1 2 3 4 5 provision_order[of "cli_input_of ''podvm.qcow2'' ''provision''" cli_ok]
      provision_order[of "cli_input_of '''' ''deprovision''" cli_ok]
    by simp
qed

subsection \<open>The CLI: failures\<close>

lemma safe_log_info: "safe failed_step is_call 1 (log_info s h)"
  by (simp add: safe_def log_info_def)

lemma safe_exit_on_err:
  assumes "\<not> failed_step (call None)" "\<And>e. \<not> is_call (report e)" "\<And>e. \<not> failed_step (report e)"
  shows "safe failed_step is_call 1 (exit_on_err call report r)"
  using assms by (cases r) (simp_all add: safe_def exit_on_err_def)

lemma safe_stat_image: "safe failed_step is_call 1 (stat_image env inp h)"
  by (simp add: safe_def stat_image_def split: stat_result.splits)

lemma safe_upload_image: "safe failed_step is_call 1 (upload_image env inp h)"
  unfolding upload_image_def
  by (rule safe_seq) (auto simp: safe_log_info safe_stat_image intro!: safe_exit_on_err)

lemma safe_deploy_adaptor: "safe failed_step is_call 1 (deploy_adaptor env h)"
  by (simp add: safe_def deploy_adaptor_def exit_on_err_def Let_def split: option.splits)

lemma safe_provision: "safe failed_step is_call 1 (provision env inp h)"
  unfolding provision_def
  by (rule safe_seq)
     (auto simp: safe_log_info safe_upload_image safe_skip safe_deploy_adaptor intro!: safe_exit_on_err)

lemma safe_deprovision: "safe failed_step is_call 1 (deprovision env h)"
  unfolding deprovision_def
  by (rule safe_seq) (auto simp: safe_log_info intro!: safe_exit_on_err)

lemma safe_dispatch: "safe failed_step is_call 1 (dispatch env inp a h)"
  unfolding dispatch_def
  by (rule safe_seq) (auto simp: safe_provision safe_deprovision safe_upload_image safe_skip)

lemma safe_main: "safe failed_step is_call 1 (main env inp)"
proof (cases "getCloudProvisioner env [] (cloudProvider inp) (provisionPropsFile inp)")
  case (Some e)
  then show ?thesis by (simp add: main_def exit_on_err_def safe_def)
next
  case None
  show ?thesis
  proof (cases "flags inp")
    case (FlagExit c)
    with None show ?thesis by (simp add: main_def exit_on_err_def safe_def)
  next
    case (Parsed a)
    let ?h = "[GetCloudProvisioner (cloudProvider inp) (provisionPropsFile inp) None]"
    have "safe failed_step is_call 1 (dispatch env inp a ?h)" by (rule safe_dispatch)
    with None Parsed show ?thesis
      by (cases "dispatch env inp a ?h") (auto simp: main_def exit_on_err_def safe_def)
  qed
qed

text \<open>
  C10. With an action other than the three known ones, and the provisioner constructed, the
  run consists of the provisioner lookup alone: no method is invoked, nothing is reported,
  and \<^verbatim>\<open>main\<close> returns, so the exit status is 0.
\<close>

theorem unknown_action_exits_0:
  "flags inp = Parsed a \<Longrightarrow> a \<noteq> ''provision'' \<Longrightarrow> a \<noteq> ''deprovision'' \<Longrightarrow> a \<noteq> ''uploadimage'' \<Longrightarrow>
   getCloudProvisioner env [] (cloudProvider inp) (provisionPropsFile inp) = None \<Longrightarrow>
     fst (main env inp) = [GetCloudProvisioner (cloudProvider inp) (provisionPropsFile inp) None] \<and>
     methods (fst (main env inp)) = [] \<and> exit_code (snd (main env inp)) = 0"
  by (simp add: main_def dispatch_def exit_on_err_def skip_def methods_def exit_code_def)


theorem unknown_action_exits_0_witness:
  "flags (cli_input_of ''podvm.qcow2'' ''status'') = Parsed ''status'' \<and>
   getCloudProvisioner cli_ok [] (cloudProvider (cli_input_of ''podvm.qcow2'' ''status''))
     (provisionPropsFile (cli_input_of ''podvm.qcow2'' ''status'')) = None \<and>
   fst (main cli_ok (cli_input_of ''podvm.qcow2'' ''status'')) =
     [GetCloudProvisioner (cloudProvider (cli_input_of ''podvm.qcow2'' ''status''))
        (provisionPropsFile (cli_input_of ''podvm.qcow2'' ''status'')) None] \<and>
   methods (fst (main cli_ok (cli_input_of ''podvm.qcow2'' ''status''))) = [] \<and>
   exit_code (snd (main cli_ok (cli_input_of ''podvm.qcow2'' ''status''))) = 0"
proof -
  have 1: "flags (cli_input_of ''podvm.qcow2'' ''status'') = Parsed ''status''"
    by (simp add: cli_input_of_def)
  have 2: "''status'' \<noteq> ''provision''" "''status'' \<noteq> ''deprovision''" "''status'' \<noteq> ''uploadimage''"
    by simp_all
  have 3: "getCloudProvisioner cli_ok [] (cloudProvider (cli_input_of ''podvm.qcow2'' ''status''))
     (provisionPropsFile (cli_input_of ''podvm.qcow2'' ''status'')) = None"
    by (simp add: cli_ok_def)
  from unknown_action_exits_0[OF 1 2 3] 1 3 show ?thesis by blast
qed


subsection \<open>The CLI: a missing image file\<close>

lemma seq_abort_from:
  "snd (seq ss h) = Some y \<Longrightarrow> \<exists>s\<in>set ss. \<exists>h'. snd (s h') = Some y"
proof (induction ss arbitrary: h)
  case Nil
  then show ?case by simp
next
  case (Cons s ss)
  show ?case
  proof (cases rule: seq_Cons_cases[of s h ss])
    case (stop evs x)
    with Cons.prems have "snd (s h) = Some y" by simp
    then show ?thesis by auto
  next
    case (go evs evs' r)
    with Cons.prems have "snd (seq ss (h @ evs)) = Some y" by simp
    from Cons.IH[OF this] show ?thesis by auto
  qed
qed

lemma seq_must_abort:
  assumes "s \<in> set ss" and "\<And>h. snd (s h) \<noteq> None"
  shows "snd (seq ss h) \<noteq> None"
  using assms(1)
proof (induction ss arbitrary: h)
  case Nil
  then show ?case by simp
next
  case (Cons s' ss)
  show ?case
  proof (cases rule: seq_Cons_cases[of s' h ss])
    case (stop evs x)
    then show ?thesis by simp
  next
    case (go evs evs' r)
    then have "s \<noteq> s'" using assms(2)[of h] by auto
    with Cons.prems have "s \<in> set ss" by simp
    from Cons.IH[OF this, of "h @ evs"] go show ?thesis by simp
  qed
qed

lemma conforms_seq_Cons_abort:
  assumes "conforms f s ms" and "\<And>h. snd (s h) \<noteq> None"
  shows "conforms f (seq (s # ss)) ms"
  unfolding conforms_def
proof
  fix h
  show "prefix (project f (fst (seq (s # ss) h))) ms \<and>
        (snd (seq (s # ss) h) = None \<longrightarrow> project f (fst (seq (s # ss) h)) = ms)"
  proof (cases rule: seq_Cons_cases[of s h ss])
    case (stop evs x)
    with assms(1) show ?thesis by (auto simp: conforms_def dest: spec[of _ h])
  next
    case (go evs evs' r)
    with assms(2)[of h] show ?thesis by simp
  qed
qed

text \<open>The process never exits with a status other than 1 from within an action.\<close>

lemma exit_exit_on_err: "snd (exit_on_err call report r) = Some y \<Longrightarrow> y = 1"
  by (cases r) (simp_all add: exit_on_err_def)

lemma exit_stat_image: "snd (stat_image env inp h) = Some y \<Longrightarrow> y = 1"
  by (simp add: stat_image_def split: stat_result.splits)

lemma exit_upload_image: "snd (upload_image env inp h) = Some y \<Longrightarrow> y = 1"
  unfolding upload_image_def
  by (drule seq_abort_from) (auto simp: log_info_def dest: exit_stat_image exit_exit_on_err)

lemma exit_deploy_adaptor: "snd (deploy_adaptor env h) = Some y \<Longrightarrow> y = 1"
  by (simp add: deploy_adaptor_def exit_on_err_def Let_def split: option.splits)

lemma exit_provision: "snd (provision env inp h) = Some y \<Longrightarrow> y = 1"
  unfolding provision_def
  by (drule seq_abort_from)
     (auto simp: log_info_def skip_def split: if_splits
           dest: exit_upload_image exit_exit_on_err exit_deploy_adaptor)

lemma exit_deprovision: "snd (deprovision env h) = Some y \<Longrightarrow> y = 1"
  unfolding deprovision_def
  by (drule seq_abort_from) (auto simp: log_info_def dest: exit_exit_on_err)

lemma exit_dispatch: "snd (dispatch env inp a h) = Some y \<Longrightarrow> y = 1"
  unfolding dispatch_def
  by (drule seq_abort_from)
     (auto simp: skip_def split: if_splits dest: exit_provision exit_deprovision exit_upload_image)

text \<open>When the image file does not exist, whenever it is looked at.\<close>

lemma stat_missing:
  assumes "\<forall>h. \<exists>e. os_Stat env h (podvmImage inp) = StatNotExist e"
  shows "snd (stat_image env inp h) \<noteq> None" and "project method_of (fst (stat_image env inp h)) = []"
proof -
  from assms obtain e where "os_Stat env h (podvmImage inp) = StatNotExist e" by blast
  then show "snd (stat_image env inp h) \<noteq> None"
    and "project method_of (fst (stat_image env inp h)) = []"
    by (simp_all add: stat_image_def)
qed

lemma upload_missing:
  assumes "\<forall>h. \<exists>e. os_Stat env h (podvmImage inp) = StatNotExist e"
  shows "snd (upload_image env inp h) \<noteq> None"
  unfolding upload_image_def
  by (rule seq_must_abort[where s = "stat_image env inp"]) (simp_all add: stat_missing(1)[OF assms])

lemma conforms_upload_missing:
  assumes "\<forall>h. \<exists>e. os_Stat env h (podvmImage inp) = StatNotExist e"
  shows "conforms method_of (upload_image env inp) []"
proof -
  have 1: "conforms method_of (stat_image env inp) []"
    by (simp add: conforms_def stat_missing[OF assms])
  have 2: "conforms method_of
             (seq [stat_image env inp,
                   (\<lambda>h. exit_on_err (UploadPodvm (podvmImage inp)) LogError
                          (uploadPodvm env h (podvmImage inp)))]) []"
    by (rule conforms_seq_Cons_abort[OF 1]) (rule stat_missing(1)[OF assms])
  have "conforms method_of (upload_image env inp) ([] @ [])"
    unfolding upload_image_def by (rule conforms_seq_Cons[OF conforms_log_info 2])
  then show ?thesis by simp
qed

lemma provision_missing:
  assumes "\<forall>h. \<exists>e. os_Stat env h (podvmImage inp) = StatNotExist e" and "podvmImage inp \<noteq> ''''"
  shows "snd (provision env inp h) \<noteq> None"
    and "conforms method_of (provision env inp) [MCreateVPC, MCreateCluster]"
proof -
  show "snd (provision env inp h) \<noteq> None"
    unfolding provision_def
    by (rule seq_must_abort[where s = "upload_image env inp"])
       (simp_all add: assms(2) upload_missing[OF assms(1)])
  have vpc: "conforms method_of (\<lambda>h. exit_on_err CreateVPC Println (createVPC env h)) [MCreateVPC]"
    by (rule conforms_exit_on_err) simp_all
  have cl: "conforms method_of (\<lambda>h. exit_on_err CreateCluster Println (createCluster env h))
              [MCreateCluster]"
    by (rule conforms_exit_on_err) simp_all
  have up: "conforms method_of
              (seq [if podvmImage inp \<noteq> '''' then upload_image env inp else skip,
                    (\<lambda>h. exit_on_err (NewCloudAPIAdaptor (cloudProvider inp)) LogError
                           (newCloudAPIAdaptor env h (cloudProvider inp))),
                    deploy_adaptor env]) []"
    by (rule conforms_seq_Cons_abort)
       (simp_all add: assms(2) conforms_upload_missing[OF assms(1)] upload_missing[OF assms(1)])
  have "conforms method_of (provision env inp) ([] @ [MCreateVPC] @ [] @ [MCreateCluster] @ [])"
    unfolding provision_def
    by (intro conforms_seq_Cons conforms_log_info vpc cl up)
  then show "conforms method_of (provision env inp) [MCreateVPC, MCreateCluster]" by simp
qed

lemma dispatch_missing:
  assumes "\<forall>h. \<exists>e. os_Stat env h (podvmImage inp) = StatNotExist e"
    and "a = ''uploadimage'' \<or> a = ''provision'' \<and> podvmImage inp \<noteq> ''''"
  shows "snd (dispatch env inp a h) = Some 1"
    and "prefix (methods (fst (dispatch env inp a h))) [MCreateVPC, MCreateCluster]"
proof -
  have "snd (dispatch env inp a h) \<noteq> None"
  proof (cases "a = ''uploadimage''")
    case True
    show ?thesis unfolding dispatch_def
      by (rule seq_must_abort[where s = "upload_image env inp"])
         (simp_all add: True upload_missing[OF assms(1)])
  next
    case False
    with assms(2) have a: "a = ''provision''" "podvmImage inp \<noteq> ''''" by simp_all
    show ?thesis unfolding dispatch_def
      by (rule seq_must_abort[where s = "provision env inp"])
         (simp_all add: a provision_missing(1)[OF assms(1) a(2)])
  qed
  then show "snd (dispatch env inp a h) = Some 1" using exit_dispatch[of env inp a h] by auto
  show "prefix (methods (fst (dispatch env inp a h))) [MCreateVPC, MCreateCluster]"
  proof (cases "a = ''uploadimage''")
    case True
    have "conforms method_of (dispatch env inp a) ([] @ [] @ [] @ [])"
      unfolding dispatch_def
      by (intro conforms_seq_Cons conforms_seq_Nil)
         (simp_all add: True conforms_skip conforms_upload_missing[OF assms(1)])
    then show ?thesis by (simp add: conforms_def methods_def)
  next
    case False
    with assms(2) have a: "a = ''provision''" "podvmImage inp \<noteq> ''''" by simp_all
    have "conforms method_of (dispatch env inp a) ([MCreateVPC, MCreateCluster] @ [] @ [] @ [])"
      unfolding dispatch_def
      by (intro conforms_seq_Cons conforms_seq_Nil)
         (simp_all add: a conforms_skip provision_missing(2)[OF assms(1) a(2)])
    then show ?thesis by (simp add: conforms_def methods_def)
  qed
qed

lemma main_missing:
  assumes "\<forall>h. \<exists>e. os_Stat env h (podvmImage inp) = StatNotExist e"
    and "flags inp = Parsed a"
    and "a = ''uploadimage'' \<or> a = ''provision'' \<and> podvmImage inp \<noteq> ''''"
  shows "snd (main env inp) = Some 1"
    and "prefix (methods (fst (main env inp))) [MCreateVPC, MCreateCluster]"
proof -
  let ?h = "[GetCloudProvisioner (cloudProvider inp) (provisionPropsFile inp) None]"
  note d = dispatch_missing[OF assms(1,3), of ?h]
  show "snd (main env inp) = Some 1"
    using d(1) assms(2)
    by (cases "getCloudProvisioner env [] (cloudProvider inp) (provisionPropsFile inp)";
        cases "dispatch env inp a ?h")
       (simp_all add: main_def exit_on_err_def)
  show "prefix (methods (fst (main env inp))) [MCreateVPC, MCreateCluster]"
    using d(2) main_parsed(1)[OF assms(2), of env]
    by (cases "getCloudProvisioner env [] (cloudProvider inp) (provisionPropsFile inp)") simp_all
qed

lemma main_lookup_failed:
  "getCloudProvisioner env [] (cloudProvider inp) (provisionPropsFile inp) = Some x \<Longrightarrow>
     main env inp =
       ([GetCloudProvisioner (cloudProvider inp) (provisionPropsFile inp) (Some x), LogError x], Some 1)"
  by (simp add: main_def exit_on_err_def)

text \<open>
  C9. Every failure during the action ends the process with exit status 1. Whenever a step
  of the run fails (the provisioner lookup, a method of the provisioner or of the adaptor
  returns an error, the image file does not exist), the exit status is 1, and no call of any
  kind comes after the failed step: only the report of the error. When the lookup of the
  provisioner fails, the run is that lookup and its report, with status 1. When the image
  file does not exist, under \<^verbatim>\<open>-action=uploadimage\<close>, or under \<^verbatim>\<open>-action=provision\<close> with an
  image path, the exit status is 1 and the methods invoked are at most create VPC and create
  cluster: the image is not uploaded and nothing is deployed.
\<close>

theorem failure_exits_1:
  "(fst (main env inp) = pre @ e # post \<and> failed_step e \<longrightarrow>
      exit_code (snd (main env inp)) = 1 \<and> filter is_call post = []) \<and>
   (getCloudProvisioner env [] (cloudProvider inp) (provisionPropsFile inp) = Some x \<longrightarrow>
      fst (main env inp) =
        [GetCloudProvisioner (cloudProvider inp) (provisionPropsFile inp) (Some x), LogError x] \<and>
      exit_code (snd (main env inp)) = 1) \<and>
   ((\<forall>h. \<exists>err. os_Stat env h (podvmImage inp) = StatNotExist err) \<and> flags inp = Parsed a \<and>
    (a = ''uploadimage'' \<or> a = ''provision'' \<and> podvmImage inp \<noteq> '''') \<longrightarrow>
      exit_code (snd (main env inp)) = 1 \<and>
      prefix (methods (fst (main env inp))) [MCreateVPC, MCreateCluster] \<and>
      MUploadPodvm \<notin> set (methods (fst (main env inp))) \<and>
      MDeploy \<notin> set (methods (fst (main env inp))))"
proof (intro conjI impI)
  assume "fst (main env inp) = pre @ e # post \<and> failed_step e"
  then show "exit_code (snd (main env inp)) = 1" "filter is_call post = []"
    using safe_main[of env inp] nothing_after_split[of failed_step is_call pre e post]
    by (auto simp: safe_def exit_code_def)
next
  assume "getCloudProvisioner env [] (cloudProvider inp) (provisionPropsFile inp) = Some x"
  from main_lookup_failed[OF this]
  show "fst (main env inp) =
        [GetCloudProvisioner (cloudProvider inp) (provisionPropsFile inp) (Some x), LogError x]"
    and "exit_code (snd (main env inp)) = 1"
    by (simp_all add: exit_code_def)
next
  assume a: "(\<forall>h. \<exists>err. os_Stat env h (podvmImage inp) = StatNotExist err) \<and> flags inp = Parsed a \<and>
    (a = ''uploadimage'' \<or> a = ''provision'' \<and> podvmImage inp \<noteq> '''')"
  then have m: "snd (main env inp) = Some 1"
      "prefix (methods (fst (main env inp))) [MCreateVPC, MCreateCluster]"
    using main_missing[of env inp a] by blast+
  from m(1) show "exit_code (snd (main env inp)) = 1" by (simp add: exit_code_def)
  from m(2) show "prefix (methods (fst (main env inp))) [MCreateVPC, MCreateCluster]" .
  from m(2) have "set (methods (fst (main env inp))) \<subseteq> {MCreateVPC, MCreateCluster}"
    using set_mono_prefix by fastforce
  then show "MUploadPodvm \<notin> set (methods (fst (main env inp)))"
    and "MDeploy \<notin> set (methods (fst (main env inp)))" by auto
qed

theorem failure_exits_1_witness:
  "fst (main cli_no_image (cli_input_of ''podvm.qcow2'' ''provision'')) =
     [GetCloudProvisioner ''ibmcloud'' ''/root/provision_ibmcloud.properties'' None,
      LogInfo ''Creating VPC...'', CreateVPC None, LogInfo ''Creating Cluster...'',
      CreateCluster None, LogInfo ''Uploading PodVM Image...'']
     @ Stat ''podvm.qcow2'' (StatNotExist ''no such file or directory'')
     # [LogError ''no such file or directory''] \<and>
   failed_step (Stat ''podvm.qcow2'' (StatNotExist ''no such file or directory'')) \<and>
   exit_code (snd (main cli_no_image (cli_input_of ''podvm.qcow2'' ''provision''))) = 1 \<and>
   filter is_call [LogError ''no such file or directory''] = [] \<and>
   methods (fst (main cli_no_image (cli_input_of ''podvm.qcow2'' ''provision''))) =
     [MCreateVPC, MCreateCluster] \<and>
   MUploadPodvm \<notin> set (methods (fst (main cli_no_image (cli_input_of ''podvm.qcow2'' ''provision'')))) \<and>
   fst (main cli_no_image (cli_input_of ''podvm.qcow2'' ''uploadimage'')) =
     [GetCloudProvisioner ''ibmcloud'' ''/root/provision_ibmcloud.properties'' None,
      LogInfo ''Uploading PodVM Image...'',
      Stat ''podvm.qcow2'' (StatNotExist ''no such file or directory''),
      LogError ''no such file or directory''] \<and>
   exit_code (snd (main cli_no_image (cli_input_of ''podvm.qcow2'' ''uploadimage''))) = 1 \<and>
   getCloudProvisioner (cli_ok\<lparr>getCloudProvisioner := (\<lambda>h p f. Some ''unsupported provider'')\<rparr>) []
     (cloudProvider (cli_input_of ''podvm.qcow2'' ''provision''))
     (provisionPropsFile (cli_input_of ''podvm.qcow2'' ''provision'')) = Some ''unsupported provider'' \<and>
   exit_code (snd (main (cli_ok\<lparr>getCloudProvisioner := (\<lambda>h p f. Some ''unsupported provider'')\<rparr>)
     (cli_input_of ''podvm.qcow2'' ''provision''))) = 1 \<and>
   fst (main cli_no_cluster (cli_input_of ''podvm.qcow2'' ''provision'')) =
     [GetCloudProvisioner ''ibmcloud'' ''/root/provision_ibmcloud.properties'' None,
      LogInfo ''Creating VPC...'', CreateVPC None, LogInfo ''Creating Cluster...'']
     @ CreateCluster (Some ''quota exceeded'') # [Println ''quota exceeded''] \<and>
   failed_step (CreateCluster (Some ''quota exceeded'')) \<and>
   exit_code (snd (main cli_no_cluster (cli_input_of ''podvm.qcow2'' ''provision''))) = 1 \<and>
   filter is_call [Println ''quota exceeded''] = []"
proof -
  let ?p = "cli_input_of ''podvm.qcow2'' ''provision''"
  let ?u = "cli_input_of ''podvm.qcow2'' ''uploadimage''"
  let ?l = "cli_ok\<lparr>getCloudProvisioner := (\<lambda>h p f. Some ''unsupported provider'')\<rparr>"
  have 1: "fst (main cli_no_image ?p) =
     [GetCloudProvisioner ''ibmcloud'' ''/root/provision_ibmcloud.properties'' None,
      LogInfo ''Creating VPC...'', CreateVPC None, LogInfo ''Creating Cluster...'',
      CreateCluster None, LogInfo ''Uploading PodVM Image...'']
     @ Stat ''podvm.qcow2'' (StatNotExist ''no such file or directory'')
     # [LogError ''no such file or directory'']"
    by (simp add: cli_defs cli_input_of_def cli_ok_def cli_no_image_def)
  have 2: "failed_step (Stat ''podvm.qcow2'' (StatNotExist ''no such file or directory''))" by simp
  have 3: "fst (main cli_no_image ?u) =
     [GetCloudProvisioner ''ibmcloud'' ''/root/provision_ibmcloud.properties'' None,
      LogInfo ''Uploading PodVM Image...'',
      Stat ''podvm.qcow2'' (StatNotExist ''no such file or directory''),
      LogError ''no such file or directory'']"
    by (simp add: cli_defs cli_input_of_def cli_ok_def cli_no_image_def)
  have 4: "\<forall>h. \<exists>err. os_Stat cli_no_image h (podvmImage ?p) = StatNotExist err"
       "\<forall>h. \<exists>err. os_Stat cli_no_image h (podvmImage ?u) = StatNotExist err"
    by (simp_all add: cli_no_image_def)
  have 5: "flags ?p = Parsed ''provision''" "podvmImage ?p \<noteq> ''''" "flags ?u = Parsed ''uploadimage''"
    by (simp_all add: cli_input_of_def)
  have 6: "getCloudProvisioner ?l [] (cloudProvider ?p) (provisionPropsFile ?p) = Some ''unsupported provider''"
    by (simp add: cli_ok_def)
  have a: "exit_code (snd (main cli_no_image ?p)) = 1 \<and>
           filter is_call [LogError ''no such file or directory''] = []"
    using failure_exits_1[where env = cli_no_image and inp = ?p, THEN conjunct1] 1 2 by blast
  have b: "exit_code (snd (main cli_no_image ?p)) = 1 \<and>
      prefix (methods (fst (main cli_no_image ?p))) [MCreateVPC, MCreateCluster] \<and>
      MUploadPodvm \<notin> set (methods (fst (main cli_no_image ?p))) \<and>
      MDeploy \<notin> set (methods (fst (main cli_no_image ?p)))"
    using failure_exits_1[where env = cli_no_image and inp = ?p and a = "''provision''",
            THEN conjunct2, THEN conjunct2] 4(1) 5 by blast
  have c: "exit_code (snd (main cli_no_image ?u)) = 1"
    using failure_exits_1[where env = cli_no_image and inp = ?u and a = "''uploadimage''",
            THEN conjunct2, THEN conjunct2] 4(2) 5 by blast
  have d: "exit_code (snd (main ?l ?p)) = 1"
    using failure_exits_1[where env = ?l and inp = ?p and x = "''unsupported provider''",
            THEN conjunct2, THEN conjunct1] 6 by blast
  have e: "methods (fst (main cli_no_image ?p)) = [MCreateVPC, MCreateCluster]"
    by (simp add: 1 methods_def)
  have 7: "fst (main cli_no_cluster ?p) =
     [GetCloudProvisioner ''ibmcloud'' ''/root/provision_ibmcloud.properties'' None,
      LogInfo ''Creating VPC...'', CreateVPC None, LogInfo ''Creating Cluster...'']
     @ CreateCluster (Some ''quota exceeded'') # [Println ''quota exceeded'']"
    by (simp add: cli_defs cli_input_of_def cli_ok_def cli_no_cluster_def)
  have 8: "failed_step (CreateCluster (Some ''quota exceeded''))" by simp
  have f: "exit_code (snd (main cli_no_cluster ?p)) = 1 \<and>
           filter is_call [Println ''quota exceeded''] = []"
    using failure_exits_1[where env = cli_no_cluster and inp = ?p, THEN conjunct1] 7 8 by blast
  show ?thesis using 1 2 3 6 7 8 a b c d e f by simp
qed


subsection \<open>Fixtures\<close>

lemma apply_option_keeps:
  "Containers (Spec p) \<noteq> [] \<Longrightarrow>
     \<exists>p'. apply_option opt p = Some p' \<and> Containers (Spec p') \<noteq> [] \<and>
          RuntimeClassName (Spec p') = RuntimeClassName (Spec p)"
  by (cases opt) (auto split: list.splits)

lemma apply_options_keeps:
  "Containers (Spec p) \<noteq> [] \<Longrightarrow>
     \<exists>p'. apply_options opts p = Some p' \<and> RuntimeClassName (Spec p') = RuntimeClassName (Spec p)"
proof (induction opts arbitrary: p)
  case Nil
  show ?case by simp
next
  case (Cons opt opts)
  from apply_option_keeps[OF Cons.prems, of opt] obtain p1 where
    1: "apply_option opt p = Some p1" "Containers (Spec p1) \<noteq> []"
       "RuntimeClassName (Spec p1) = RuntimeClassName (Spec p)" by blast
  from Cons.IH[OF 1(2)] 1 show ?case by auto
qed

text \<open>
  C7, as amended. Whatever its parameters and options, \<^verbatim>\<open>newPod\<close> returns a pod whose runtime
  class is \<^verbatim>\<open>kata-remote\<close>; the runtime class of the pod of \<^verbatim>\<open>newUserPod\<close> is the one passed
  to it.
\<close>

theorem fixture_runtime_class:
  "(\<exists>p. newPod ns podName cn imageName options = Some p \<and> runtimeClass p = Some ''kata-remote'') \<and>
   runtimeClass (newUserPod ns' userPodName cn' runtimeclass clusterIP) = Some runtimeclass"
proof
  show "\<exists>p. newPod ns podName cn imageName options = Some p \<and> runtimeClass p = Some ''kata-remote''"
    unfolding newPod_def Let_def runtimeClass_def
    using apply_options_keeps[of "\<lparr>ObjectMeta = \<lparr>Name = podName, Namespace = ns, Labels = []\<rparr>,
         Spec = \<lparr>Containers = [newContainer cn imageName], Volumes = [],
                 RestartPolicy = '''', DNSPolicy = '''', RuntimeClassName = Some ''kata-remote''\<rparr>,
         ContainerStatuses = []\<rparr>" options]
    by simp
  show "runtimeClass (newUserPod ns' userPodName cn' runtimeclass clusterIP) = Some runtimeclass"
    by (simp add: newUserPod_def runtimeClass_def)
qed

text \<open>
  The claim as stated fails: a user pod built with another class does not carry the class of
  the pods of \<^verbatim>\<open>newPod\<close>.
\<close>

theorem fixture_runtime_class_counterexample:
  "map_option runtimeClass (newPod ''default'' ''nginx'' ''nginx'' ''nginx'' []) = Some (Some ''kata-remote'') \<and>
   runtimeClass (newUserPod ''default'' ''user-pod'' ''user-pod'' ''runc'' ''10.0.0.1'') = Some ''runc'' \<and>
   map_option runtimeClass (newPod ''default'' ''nginx'' ''nginx'' ''nginx'' []) \<noteq>
     Some (runtimeClass (newUserPod ''default'' ''user-pod'' ''user-pod'' ''runc'' ''10.0.0.1''))"
  by (simp add: newPod_def newUserPod_def runtimeClass_def)


subsection \<open>Setup\<close>

lemma withSetup_eq:
  "withSetup env tc =
     seq (creation_steps env tc @
          [(case job tc of None \<Rightarrow> skip | Some j \<Rightarrow> wait_job env j),
           (case job tc of None \<Rightarrow> wait_pod env (ObjectMeta (pod tc)) | Some j \<Rightarrow> skip)])"
  by (simp add: withSetup_def creation_steps_def)

lemma fatal_on_err_cases:
  "fatal_on_err call r = ([call None], None) \<and> r = None \<or>
   (\<exists>e. fatal_on_err call r = ([call (Some e), TFatal (FatalErr e)], Some FailNow) \<and> r = Some e)"
  by (cases r) (simp_all add: fatal_on_err_def)

lemma creation_step_events:
  "s \<in> set (creation_steps env tc) \<Longrightarrow> \<forall>e\<in>set (fst (s h)). creation_event e"
  by (auto simp: creation_steps_def fatal_on_err_def create_def skip_def split: option.splits)

lemma creation_events: "\<forall>e\<in>set (fst (seq (creation_steps env tc) h)). creation_event e"
  by (rule seq_all) (rule creation_step_events)

lemma creation_step_quiet:
  "s \<in> set (creation_steps env tc) \<Longrightarrow> snd (s h) = None \<Longrightarrow>
     \<forall>e\<in>set (fst (s h)). \<not> marks_failed e \<and> \<not> failed_call e"
  by (auto simp: creation_steps_def fatal_on_err_def create_def skip_def split: option.splits)

lemma creation_quiet:
  "snd (seq (creation_steps env tc) h) = None \<Longrightarrow>
     \<forall>e\<in>set (fst (seq (creation_steps env tc) h)). \<not> marks_failed e \<and> \<not> failed_call e"
  by (rule seq_None_all) (rule creation_step_quiet)

lemma withSetup_pod:
  assumes "job tc = None"
  shows "withSetup env tc h =
     (case seq (creation_steps env tc) h of
        (evs, Some x) \<Rightarrow> (evs, Some x)
      | (evs, None) \<Rightarrow>
          (case wait_pod env (ObjectMeta (pod tc)) (h @ evs) of (evs', r) \<Rightarrow> (evs @ evs', r)))"
  using assms
  by (simp add: withSetup_eq seq_append skip_def split: prod.splits option.splits)

lemma withSetup_job:
  assumes "job tc = Some j"
  shows "withSetup env tc h =
     (case seq (creation_steps env tc) h of
        (evs, Some x) \<Rightarrow> (evs, Some x)
      | (evs, None) \<Rightarrow> (case wait_job env j (h @ evs) of (evs', r) \<Rightarrow> (evs @ evs', r)))"
  using assms
  by (simp add: withSetup_eq seq_append skip_def split: prod.splits option.splits)

lemma withSetup_pod_cases:
  assumes "job tc = None"
  obtains (aborted) evs x where "withSetup env tc h = (evs, Some x)" "\<forall>e\<in>set evs. creation_event e"
  | (running) evs where
      "withSetup env tc h = (evs @ [WaitPodRunning (ObjectMeta (pod tc)) WAIT_POD_RUNNING_TIMEOUT None], None)"
      "\<forall>e\<in>set evs. creation_event e" "\<forall>e\<in>set evs. \<not> marks_failed e \<and> \<not> failed_call e"
  | (timeout) evs e where
      "withSetup env tc h =
         (evs @ [WaitPodRunning (ObjectMeta (pod tc)) WAIT_POD_RUNNING_TIMEOUT (Some e),
                 TFatal (FatalErr e)], Some FailNow)"
      "\<forall>e\<in>set evs. creation_event e"
proof (cases "seq (creation_steps env tc) h")
  case (Pair evs r)
  have ev: "\<forall>e\<in>set evs. creation_event e" using creation_events[of env tc h] Pair by simp
  show ?thesis
  proof (cases r)
    case (Some x)
    with Pair ev show ?thesis using aborted by (simp add: withSetup_pod[OF assms])
  next
    case None
    have q: "\<forall>e\<in>set evs. \<not> marks_failed e \<and> \<not> failed_call e"
      using creation_quiet[of env tc h] Pair None by simp
    show ?thesis
    proof (cases "waitPodRunning env (h @ evs) (ObjectMeta (pod tc)) WAIT_POD_RUNNING_TIMEOUT")
      case None
      with Pair \<open>r = None\<close> ev q show ?thesis using running
        by (simp add: withSetup_pod[OF assms] wait_pod_def fatal_on_err_def)
    next
      case (Some e)
      with Pair \<open>r = None\<close> ev show ?thesis using timeout
        by (simp add: withSetup_pod[OF assms] wait_pod_def fatal_on_err_def)
    qed
  qed
qed

lemma withSetup_job_cases:
  assumes "job tc = Some j"
  obtains (aborted) evs x where "withSetup env tc h = (evs, Some x)" "\<forall>e\<in>set evs. creation_event e"
  | (completed) evs where
      "withSetup env tc h = (evs @ [WaitJobCompleted j WAIT_POD_RUNNING_TIMEOUT None], None)"
      "\<forall>e\<in>set evs. creation_event e" "\<forall>e\<in>set evs. \<not> marks_failed e \<and> \<not> failed_call e"
  | (timeout) evs e where
      "withSetup env tc h =
         (evs @ [WaitJobCompleted j WAIT_POD_RUNNING_TIMEOUT (Some e), TLog [e]], None)"
      "\<forall>e\<in>set evs. creation_event e" "\<forall>e\<in>set evs. \<not> marks_failed e \<and> \<not> failed_call e"
proof (cases "seq (creation_steps env tc) h")
  case (Pair evs r)
  have ev: "\<forall>e\<in>set evs. creation_event e" using creation_events[of env tc h] Pair by simp
  show ?thesis
  proof (cases r)
    case (Some x)
    with Pair ev show ?thesis using aborted by (simp add: withSetup_job[OF assms])
  next
    case None
    have q: "\<forall>e\<in>set evs. \<not> marks_failed e \<and> \<not> failed_call e"
      using creation_quiet[of env tc h] Pair None by simp
    show ?thesis
    proof (cases "waitJobCompleted env (h @ evs) j WAIT_POD_RUNNING_TIMEOUT")
      case None
      with Pair \<open>r = None\<close> ev q show ?thesis using completed
        by (simp add: withSetup_job[OF assms] wait_job_def)
    next
      case (Some e)
      with Pair \<open>r = None\<close> ev q show ?thesis using timeout
        by (simp add: withSetup_job[OF assms] wait_job_def)
    qed
  qed
qed

lemma creation_event_not_wait:
  "creation_event e \<Longrightarrow> e \<noteq> WaitPodRunning p t r \<and> e \<noteq> WaitJobCompleted p t r \<and> \<not> is_exec e"
  by (cases e) simp_all

text \<open>
  C5. The timeout of both waits is 300 seconds. Without a job, a setup that returns has
  ended with the successful wait for the running pod, and a wait that returns an error is
  followed by \<^verbatim>\<open>t.Fatal\<close> alone, which ends setup. With a job, a wait for its completion that
  returns an error is followed by \<^verbatim>\<open>t.Log\<close> of the error alone, and setup returns with no
  event that marks the test failed.
\<close>

theorem wait_timeouts:
  "WAIT_POD_RUNNING_TIMEOUT = 300 * Second \<and>
   (job tc = None \<and> snd (withSetup env tc h) = None \<longrightarrow>
      (\<exists>pre. fst (withSetup env tc h) =
                pre @ [WaitPodRunning (ObjectMeta (pod tc)) (300 * Second) None])) \<and>
   (WaitPodRunning p t (Some e) \<in> set (fst (withSetup env tc h)) \<longrightarrow>
      job tc = None \<and> p = ObjectMeta (pod tc) \<and> t = 300 * Second \<and>
      (\<exists>pre. withSetup env tc h =
                (pre @ [WaitPodRunning p t (Some e), TFatal (FatalErr e)], Some FailNow))) \<and>
   (WaitJobCompleted j t (Some e) \<in> set (fst (withSetup env tc h)) \<longrightarrow>
      job tc = Some j \<and> t = 300 * Second \<and>
      (\<exists>pre. withSetup env tc h = (pre @ [WaitJobCompleted j t (Some e), TLog [e]], None)) \<and>
      \<not> list_ex marks_failed (fst (withSetup env tc h)))"
proof (intro conjI impI)
  show T: "WAIT_POD_RUNNING_TIMEOUT = 300 * Second" by (simp add: WAIT_POD_RUNNING_TIMEOUT_def)
  {
    assume a: "job tc = None \<and> snd (withSetup env tc h) = None"
    then have j: "job tc = None" by simp
    show "\<exists>pre. fst (withSetup env tc h) =
                pre @ [WaitPodRunning (ObjectMeta (pod tc)) (300 * Second) None]"
      using a by (cases rule: withSetup_pod_cases[OF j, of env h]) (auto simp: T)
  }
  {
    assume a: "WaitPodRunning p t (Some e) \<in> set (fst (withSetup env tc h))"
    have j: "job tc = None"
    proof (cases "job tc")
      case (Some j')
      show ?thesis using a
        by (cases rule: withSetup_job_cases[OF Some, of env h])
           (auto dest: creation_event_not_wait bspec)
    qed simp
    then show "job tc = None" .
    have "p = ObjectMeta (pod tc) \<and> t = 300 * Second \<and>
      (\<exists>pre. withSetup env tc h =
                (pre @ [WaitPodRunning p t (Some e), TFatal (FatalErr e)], Some FailNow))"
      using a
      by (cases rule: withSetup_pod_cases[OF j, of env h])
         (auto simp: T dest: creation_event_not_wait bspec)
    then show "p = ObjectMeta (pod tc)" "t = 300 * Second"
      "\<exists>pre. withSetup env tc h =
                (pre @ [WaitPodRunning p t (Some e), TFatal (FatalErr e)], Some FailNow)"
      by blast+
  }
  {
    assume a: "WaitJobCompleted j t (Some e) \<in> set (fst (withSetup env tc h))"
    have "\<exists>j'. job tc = Some j'"
    proof (cases "job tc")
      case None
      show ?thesis using a
        by (cases rule: withSetup_pod_cases[OF None, of env h])
           (auto dest: creation_event_not_wait bspec)
    qed simp
    then obtain j' where j': "job tc = Some j'" by blast
    have "j' = j \<and> t = 300 * Second \<and>
      (\<exists>pre. withSetup env tc h = (pre @ [WaitJobCompleted j t (Some e), TLog [e]], None)) \<and>
      \<not> list_ex marks_failed (fst (withSetup env tc h))"
      using a
      by (cases rule: withSetup_job_cases[OF j', of env h])
         (auto simp: T list_ex_iff dest: creation_event_not_wait bspec)
    with j' show "job tc = Some j" "t = 300 * Second"
      "\<exists>pre. withSetup env tc h = (pre @ [WaitJobCompleted j t (Some e), TLog [e]], None)"
      "\<not> list_ex marks_failed (fst (withSetup env tc h))"
      by blast+
  }
qed

lemma withSetup_no_exec: "\<forall>e\<in>set (fst (withSetup env tc h)). \<not> is_exec e"
proof (cases "job tc")
  case None
  show ?thesis
    by (cases rule: withSetup_pod_cases[OF None, of env h])
       (auto dest: creation_event_not_wait bspec)
next
  case (Some j)
  show ?thesis
    by (cases rule: withSetup_job_cases[OF Some, of env h])
       (auto dest: creation_event_not_wait bspec)
qed

text \<open>
  C3. Without a job, every execution of a verification command in the events of a run comes
  after the wait for the running pod, which has returned without error.
\<close>

theorem running_before_commands:
  "job tc = None \<Longrightarrow> trace (run env tc) = pre @ ExecInPod ns n cn cmd r # post \<Longrightarrow>
     WaitPodRunning (ObjectMeta (pod tc)) WAIT_POD_RUNNING_TIMEOUT None \<in> set pre"
proof -
  assume j: "job tc = None" and t: "trace (run env tc) = pre @ ExecInPod ns n cn cmd r # post"
  obtain s a where s: "withSetup env tc [] = (s, a)" by (cases "withSetup env tc []")
  have nx: "ExecInPod ns n cn cmd r \<notin> set s"
    using withSetup_no_exec[of env tc "[]"] s by auto
  obtain rest where tr: "trace (run env tc) = s @ rest" "a \<noteq> None \<longrightarrow> rest = []"
    using s by (cases a; cases "assess env tc s")
      (auto simp: run_def trace_def events_of_def)
  from tr(1) t have "s @ rest = pre @ ExecInPod ns n cn cmd r # post" by simp
  from append_eq_split_behind[OF this nx] obtain pre' where pre: "pre = s @ pre'" by blast
  have "a = None"
  proof (rule ccontr)
    assume "a \<noteq> None"
    with tr have "trace (run env tc) = s" by simp
    with t nx show False by (metis in_set_conv_decomp)
  qed
  with s have "WaitPodRunning (ObjectMeta (pod tc)) WAIT_POD_RUNNING_TIMEOUT None \<in> set s"
    by (cases rule: withSetup_pod_cases[OF j, of env "[]"]) auto
  with pre show ?thesis by simp
qed


lemmas step_defs = seq.simps skip_def fatal_on_err_def create_def delete_def log_infof_def
  wait_job_def wait_pod_def has_pod_vm_def Let_def

lemmas input_defs = cluster_def tc_configmap_def tc_job_def nginx_config_def job_pi_def
  nginx_listed_def one_of_two_completed_def job_pod_def newNginxPodWithConfigMap_def newPod_def
  newContainer_def

lemma setup_configmap:
  "withSetup (cluster []) tc_configmap [] =
     ([NewClient None, Create (ConfigMapObj nginx_config) None,
       Create (PodObj (ObjectMeta (pod tc_configmap))) None]
      @ [WaitPodRunning (ObjectMeta (pod tc_configmap)) (300 * Second) None], None)"
  by (simp add: withSetup_def WAIT_POD_RUNNING_TIMEOUT_def step_defs input_defs)

lemma setup_pod_never_runs:
  "withSetup pod_never_runs tc_configmap [] =
     ([NewClient None, Create (ConfigMapObj nginx_config) None,
       Create (PodObj (ObjectMeta (pod tc_configmap))) None]
      @ [WaitPodRunning (ObjectMeta (pod tc_configmap)) (300 * Second) (Some ''timed out''),
         TFatal (FatalErr ''timed out'')], Some FailNow)"
  by (simp add: withSetup_def WAIT_POD_RUNNING_TIMEOUT_def pod_never_runs_def step_defs input_defs)

lemma setup_job_never_completes:
  "withSetup job_never_completes tc_job [] =
     ([NewClient None, Create (JobObj job_pi) None]
      @ [WaitJobCompleted job_pi (300 * Second) (Some ''timed out''), TLog [''timed out'']], None)"
  by (simp add: withSetup_def WAIT_POD_RUNNING_TIMEOUT_def job_never_completes_def step_defs input_defs)


theorem wait_timeouts_witness:
  "job tc_configmap = None \<and> snd (withSetup (cluster []) tc_configmap []) = None \<and>
   (\<exists>pre. fst (withSetup (cluster []) tc_configmap []) =
      pre @ [WaitPodRunning (ObjectMeta (pod tc_configmap)) (300 * Second) None]) \<and>
   WaitPodRunning (ObjectMeta (pod tc_configmap)) (300 * Second) (Some ''timed out'')
     \<in> set (fst (withSetup pod_never_runs tc_configmap [])) \<and>
   snd (withSetup pod_never_runs tc_configmap []) = Some FailNow \<and>
   WaitJobCompleted job_pi (300 * Second) (Some ''timed out'')
     \<in> set (fst (withSetup job_never_completes tc_job [])) \<and>
   snd (withSetup job_never_completes tc_job []) = None \<and>
   \<not> list_ex marks_failed (fst (withSetup job_never_completes tc_job []))"
proof -
  have j: "job tc_configmap = None" by (simp add: tc_configmap_def)
  have s: "snd (withSetup (cluster []) tc_configmap []) = None" by (simp add: setup_configmap)
  have 1: "WaitPodRunning (ObjectMeta (pod tc_configmap)) (300 * Second) (Some ''timed out'')
     \<in> set (fst (withSetup pod_never_runs tc_configmap []))"
    by (simp add: setup_pod_never_runs)
  have 2: "WaitJobCompleted job_pi (300 * Second) (Some ''timed out'')
     \<in> set (fst (withSetup job_never_completes tc_job []))"
    by (simp add: setup_job_never_completes)
  have A: "\<exists>pre. fst (withSetup (cluster []) tc_configmap []) =
      pre @ [WaitPodRunning (ObjectMeta (pod tc_configmap)) (300 * Second) None]"
    using wait_timeouts[where tc = tc_configmap and env = "cluster []" and h = "[]",
            THEN conjunct2, THEN conjunct1] j s by blast
  have B: "\<exists>pre. withSetup pod_never_runs tc_configmap [] =
      (pre @ [WaitPodRunning (ObjectMeta (pod tc_configmap)) (300 * Second) (Some ''timed out''),
              TFatal (FatalErr ''timed out'')], Some FailNow)"
    using wait_timeouts[where tc = tc_configmap and env = pod_never_runs and h = "[]"
        and p = "ObjectMeta (pod tc_configmap)" and t = "300 * Second" and e = "''timed out''",
        THEN conjunct2, THEN conjunct2, THEN conjunct1] 1 by blast
  have C: "snd (withSetup job_never_completes tc_job []) = None \<and>
      \<not> list_ex marks_failed (fst (withSetup job_never_completes tc_job []))"
    using wait_timeouts[where tc = tc_job and env = job_never_completes and h = "[]"
        and j = job_pi and t = "300 * Second" and e = "''timed out''",
        THEN conjunct2, THEN conjunct2, THEN conjunct2] 2 by force
  from B have B': "snd (withSetup pod_never_runs tc_configmap []) = Some FailNow" by force
  from j s A 1 B' 2 C show ?thesis by blast
qed


lemma pod_tc_configmap:
  "ObjectMeta (pod tc_configmap) = \<lparr>Name = ''nginx-configmap-pod'', Namespace = ''default'', Labels = []\<rparr>"
  by (simp add: input_defs)

lemma trace_configmap:
  "trace (run (cluster nginx_listed) tc_configmap) =
     [NewClient None, Create (ConfigMapObj nginx_config) None,
      Create (PodObj (ObjectMeta (pod tc_configmap))) None,
      WaitPodRunning (ObjectMeta (pod tc_configmap)) WAIT_POD_RUNNING_TIMEOUT None,
      ListPods ''default'' None, HasPodVM ''nginx-configmap-pod'' AssertOk]
     @ ExecInPod ''default'' ''nginx-configmap-pod'' ''nginx-configmap''
         [''cat'', ''/etc/config/example.txt''] None
     # [TestCommandStdoutFn ''Hello, world'' True, ListPods ''default'' None, NewClient None,
        Delete (PodObj (ObjectMeta (pod tc_configmap))) None,
        LogInfof ''Deleting pod... %s'' [''nginx-configmap-pod''],
        Delete (ConfigMapObj nginx_config) None,
        LogInfof ''Deleting Configmap... %s'' [''nginx-config'']]"
  by (simp add: run_def trace_def events_of_def withSetup_def assess_def assess_pod_def
        run_commands_def teardown_def teardown_steps_def step_defs input_defs)

theorem running_before_commands_witness:
  "job tc_configmap = None \<and>
   trace (run (cluster nginx_listed) tc_configmap) =
     [NewClient None, Create (ConfigMapObj nginx_config) None,
      Create (PodObj (ObjectMeta (pod tc_configmap))) None,
      WaitPodRunning (ObjectMeta (pod tc_configmap)) WAIT_POD_RUNNING_TIMEOUT None,
      ListPods ''default'' None, HasPodVM ''nginx-configmap-pod'' AssertOk]
     @ ExecInPod ''default'' ''nginx-configmap-pod'' ''nginx-configmap''
         [''cat'', ''/etc/config/example.txt''] None
     # [TestCommandStdoutFn ''Hello, world'' True, ListPods ''default'' None, NewClient None,
        Delete (PodObj (ObjectMeta (pod tc_configmap))) None,
        LogInfof ''Deleting pod... %s'' [''nginx-configmap-pod''],
        Delete (ConfigMapObj nginx_config) None,
        LogInfof ''Deleting Configmap... %s'' [''nginx-config'']] \<and>
   WaitPodRunning (ObjectMeta (pod tc_configmap)) WAIT_POD_RUNNING_TIMEOUT None \<in>
     set [NewClient None, Create (ConfigMapObj nginx_config) None,
          Create (PodObj (ObjectMeta (pod tc_configmap))) None,
          WaitPodRunning (ObjectMeta (pod tc_configmap)) WAIT_POD_RUNNING_TIMEOUT None,
          ListPods ''default'' None, HasPodVM ''nginx-configmap-pod'' AssertOk]"
proof -
  have j: "job tc_configmap = None" by (simp add: tc_configmap_def)
  from running_before_commands[OF j trace_configmap] j trace_configmap show ?thesis by blast
qed


subsection \<open>Assess, without a job\<close>








lemma has_pod_vm_cases:
  "has_pod_vm env n h = ([HasPodVM n AssertFatal], Some FailNow) \<or>
   (\<exists>r. has_pod_vm env n h = ([HasPodVM n r], None))"
  by (cases "hasPodVM env h n") (simp_all add: has_pod_vm_def)










lemma pod_tc_secret:
  "ObjectMeta (pod tc_secret) = \<lparr>Name = ''nginx-secret-pod'', Namespace = ''default'', Labels = []\<rparr>"
  by (simp add: tc_secret_def newNginxPodWithSecret_def input_defs)






subsection \<open>What setup creates and what teardown deletes\<close>




lemma clean_create: "clean failed_call (create env ob)"
  by (auto simp: clean_def create_def fatal_on_err_def split: option.splits)





lemma conforms_fatal_on_err:
  "(\<And>r. f (call r) = Some m) \<Longrightarrow> (\<And>x. f (TFatal x) = None) \<Longrightarrow>
     conforms f (\<lambda>h. fatal_on_err call (g h)) [m]"
  by (auto simp: conforms_def fatal_on_err_def split: option.splits)










lemma clean_weaken: "clean bad s \<Longrightarrow> (\<And>e. bad' e \<Longrightarrow> bad e) \<Longrightarrow> clean bad' s"
  by (auto simp: clean_def)


























subsection \<open>Nothing is attempted after a failed call\<close>























lemmas job_defs = assess_job_def job_pods.simps count_error_def count_success_def
  watch_loop.simps fetch_logs_def job_checks_def contains.simps is_job_pod_def label_def
  terminatedReason_def delete_job_pods_def














subsection \<open>Assess, with a job\<close>

lemma fetch_logs_tallied: "tallied j [] st (fetch_logs env j i reason st h)"
  by (simp add: tallied_def fetch_logs_def split: logs_result.splits)

lemma watch_loop_tallied: "tallied j [] st (watch_loop env j i c st h)"
proof (induction env j i c st h rule: watch_loop.induct)
  case (4 env j i eventReason c st h)
  then show ?case
    using fetch_logs_tallied[of j st env i _ h]
    by (cases "terminatedReason i") (auto simp: tallied_def)
qed (simp_all add: tallied_def)

lemma count_error_tallied:
  "count_error j i st = (evs, st', r) \<Longrightarrow>
     r \<noteq> Some SkipNow \<and> r \<noteq> Some FailNow \<and> \<not> list_ex marks_failed evs \<and>
     (r = None \<longrightarrow> errorpod st' = errorpod st + (if errored j i then 1 else 0))"
  by (auto simp: count_error_def errored_def split: option.splits if_splits)

lemma count_error_deferred:
  "count_error j i st = (evs, st', r) \<Longrightarrow>
     deferred st' = deferred st \<and> successpod st' = successpod st \<and> podlogstring st' = podlogstring st"
  by (auto simp: count_error_def split: option.splits if_splits)

lemma count_success_tallied:
  "count_success env j i st h = (evs, st', r) \<Longrightarrow>
     r \<noteq> Some SkipNow \<and> (r = Some FailNow \<longrightarrow> list_ex marks_failed evs) \<and>
     (list_ex marks_failed (deferred st') \<longrightarrow> list_ex marks_failed (deferred st)) \<and>
     (r = None \<longrightarrow> \<not> list_ex marks_failed evs \<and> errorpod st' = errorpod st \<and>
        successpod st' = successpod st + (if completed j i then 1 else 0))"
proof (cases "completed j i")
  case False
  assume "count_success env j i st h = (evs, st', r)"
  with False show ?thesis
    by (auto simp: count_success_def completed_def split: option.splits if_splits)
next
  case True
  assume a: "count_success env j i st h = (evs, st', r)"
  from True have c: "is_job_pod j i" "terminatedReason i = Some ''Completed''"
    by (simp_all add: completed_def)
  show ?thesis
  proof (cases "watchEvents env h (Namespace j)")
    case (Inl e)
    with c a True show ?thesis by (auto simp: count_success_def)
  next
    case (Inr ch)
    let ?st = "st\<lparr>successpod := successpod st + 1, deferred := WatcherStop # deferred st\<rparr>"
    let ?h = "h @ [WatchEvents (Namespace j) None]"
    obtain evs0 st0 r0 where w: "watch_loop env j i ch ?st ?h = (evs0, st0, r0)"
      by (cases "watch_loop env j i ch ?st ?h")
    from watch_loop_tallied[of j ?st env i ch ?h] w
    have "r0 \<noteq> Some SkipNow" "r0 = Some FailNow \<longrightarrow> list_ex marks_failed evs0"
      "list_ex marks_failed (deferred st0) \<longrightarrow> list_ex marks_failed (deferred st)"
      "r0 = None \<longrightarrow> \<not> list_ex marks_failed evs0 \<and> errorpod st0 = errorpod st \<and>
         successpod st0 = successpod st + 1"
      by (simp_all add: tallied_def)
    moreover from c Inr w a have "evs = WatchEvents (Namespace j) None # evs0" "st' = st0" "r = r0"
      by (simp_all add: count_success_def)
    ultimately show ?thesis using True by simp
  qed
qed

lemma job_pods_tallied: "tallied j items st (job_pods env j items st h)"
proof (induction items arbitrary: st h)
  case Nil
  show ?case by (simp add: tallied_def)
next
  case (Cons i items)
  obtain evs1 st1 r1 where 1: "count_error j i st = (evs1, st1, r1)"
    by (cases "count_error j i st")
  from count_error_tallied[OF 1]
  have e: "r1 \<noteq> Some SkipNow" "r1 = Some FailNow \<longrightarrow> list_ex marks_failed evs1"
    "r1 = None \<longrightarrow> \<not> list_ex marks_failed evs1 \<and>
       errorpod st1 = errorpod st + (if errored j i then 1 else 0)"
    by simp_all
  from count_error_deferred[OF 1]
  have d: "deferred st1 = deferred st" "successpod st1 = successpod st" by simp_all
  show ?case
  proof (cases r1)
    case (Some a)
    with 1 e d show ?thesis by (simp add: tallied_def)
  next
    case None
    obtain evs2 st2 r2 where 2: "count_success env j i st1 (h @ evs1) = (evs2, st2, r2)"
      by (cases "count_success env j i st1 (h @ evs1)")
    from count_success_tallied[OF 2]
    have s: "r2 \<noteq> Some SkipNow" "r2 = Some FailNow \<longrightarrow> list_ex marks_failed evs2"
      "list_ex marks_failed (deferred st2) \<longrightarrow> list_ex marks_failed (deferred st1)"
      "r2 = None \<longrightarrow> \<not> list_ex marks_failed evs2 \<and> errorpod st2 = errorpod st1 \<and>
         successpod st2 = successpod st1 + (if completed j i then 1 else 0)"
      by simp_all
    show ?thesis
    proof (cases r2)
      case (Some a)
      with 1 2 None e d s show ?thesis by (simp add: tallied_def)
    next
      case n2: None
      obtain evs3 st3 r3 where 3: "job_pods env j items st2 (h @ evs1 @ evs2) = (evs3, st3, r3)"
        by (cases "job_pods env j items st2 (h @ evs1 @ evs2)")
      from Cons.IH[of st2 "h @ evs1 @ evs2"] 3
      have p: "r3 \<noteq> Some SkipNow" "r3 = Some FailNow \<longrightarrow> list_ex marks_failed evs3"
        "list_ex marks_failed (deferred st3) \<longrightarrow> list_ex marks_failed (deferred st2)"
        "r3 = None \<longrightarrow> \<not> list_ex marks_failed evs3 \<and>
           errorpod st3 = errorpod st2 + length (filter (errored j) items) \<and>
           successpod st3 = successpod st2 + length (filter (completed j) items)"
        by (simp_all add: tallied_def)
      from 1 2 3 None n2 e d s p show ?thesis by (simp add: tallied_def)
    qed
  qed
qed

text \<open>When every pod has terminated with a start error, the loop runs to its end and fetches no log.\<close>

lemma job_pods_all_errored:
  "\<forall>i\<in>set items. terminatedReason i = Some ''StartError'' \<Longrightarrow>
     \<exists>evs st'. job_pods env j items st h = (evs, st', None) \<and>
       successpod st' = successpod st \<and> podlogstring st' = podlogstring st"
proof (induction items arbitrary: st h)
  case Nil
  show ?case by simp
next
  case (Cons i items)
  then have t: "terminatedReason i = Some ''StartError''" by simp
  obtain evs1 st1 where 1: "count_error j i st = (evs1, st1, None)"
    "successpod st1 = successpod st" "podlogstring st1 = podlogstring st"
    using t by (cases "is_job_pod j i") (simp_all add: count_error_def)
  have 2: "count_success env j i st1 (h @ evs1) = ([], st1, None)"
    using t by (simp add: count_success_def)
  from Cons.IH[of st1 "h @ evs1"] Cons.prems obtain evs3 st3 where
    3: "job_pods env j items st1 (h @ evs1) = (evs3, st3, None)"
       "successpod st3 = successpod st1" "podlogstring st3 = podlogstring st1" by auto
  from 1 2 3 show ?case by simp
qed

text \<open>When no call fails and every pod of the job has terminated, the loop runs to its end.\<close>

lemma watch_loop_benign:
  "benign c \<Longrightarrow> terminatedReason i = Some ''Completed'' \<Longrightarrow> job_calls_succeed env \<Longrightarrow>
     snd (snd (watch_loop env j i c st h)) = None"
proof (induction env j i c st h rule: watch_loop.induct)
  case (4 env j i eventReason c st h)
  show ?case
  proof (cases "eventReason = ''Started''")
    case True
    from 4(5) obtain logtext where
      "streamLogs env h (Namespace j) (Name (ObjectMeta i)) = LogText logtext"
      unfolding job_calls_succeed_def by blast
    with True 4(4) show ?thesis by (simp add: fetch_logs_def)
  next
    case False
    with 4 show ?thesis by simp
  qed
qed simp_all

lemma job_pods_succeed:
  "job_calls_succeed env \<Longrightarrow> \<forall>i\<in>set items. is_job_pod j i \<longrightarrow> terminatedReason i \<noteq> None \<Longrightarrow>
     snd (snd (job_pods env j items st h)) = None"
proof (induction items arbitrary: st h)
  case Nil
  show ?case by simp
next
  case (Cons i items)
  have "snd (snd (count_error j i st)) = None"
    using Cons.prems(2) by (auto simp: count_error_def split: option.splits)
  then obtain evs1 st1 where 1: "count_error j i st = (evs1, st1, None)"
    by (cases "count_error j i st") auto
  have "snd (snd (count_success env j i st1 (h @ evs1))) = None"
  proof (cases "completed j i")
    case False
    with Cons.prems(2) show ?thesis
      by (cases "is_job_pod j i"; cases "terminatedReason i")
         (auto simp: count_success_def completed_def)
  next
    case True
    then have c: "is_job_pod j i" "terminatedReason i = Some ''Completed''"
      by (simp_all add: completed_def)
    from Cons.prems(1) obtain ch where w: "watchEvents env (h @ evs1) (Namespace j) = Inr ch" "benign ch"
      unfolding job_calls_succeed_def by blast
    from watch_loop_benign[OF w(2) c(2) Cons.prems(1)] c w show ?thesis
      by (simp add: count_success_def case_prod_beta)
  qed
  then obtain evs2 st2 where 2: "count_success env j i st1 (h @ evs1) = (evs2, st2, None)"
    by (cases "count_success env j i st1 (h @ evs1)") auto
  from Cons.IH[of st2 "h @ evs1 @ evs2"] Cons.prems 1 2 show ?case
    by (simp add: case_prod_beta)
qed


lemma verdict_Cons: "\<not> marks_failed e \<Longrightarrow> verdict (e # evs, r) = verdict (evs, r)"
  by (simp add: verdict_def)

lemma assess_with_job:
  assumes "job tc = Some j" "listPods env h (Namespace (ObjectMeta (pod tc))) = Inr items"
  shows "assess env tc h =
    (ListPods (Namespace (ObjectMeta (pod tc))) None
       # fst (assess_job env j items (h @ [ListPods (Namespace (ObjectMeta (pod tc))) None])),
     snd (assess_job env j items (h @ [ListPods (Namespace (ObjectMeta (pod tc))) None])))"
  using assms by (simp add: assess_def skip_def split: prod.splits option.splits)

lemma assess_job_cases:
  obtains (no_clientset) e where
      "newForConfig env h = Some e"
      "assess_job env j items h = ([NewForConfig (Some e), TFatal (FatalErr e)], Some FailNow)"
  | (blocked) evs st where
      "job_pods env j items \<lparr>errorpod = 0, successpod = 0, podlogstring = '''', deferred = []\<rparr>
         (h @ [NewForConfig None]) = (evs, st, Some Blocked)"
      "assess_job env j items h = (NewForConfig None # evs, Some Blocked)"
  | (aborted) evs st a where
      "newForConfig env h = None"
      "job_pods env j items \<lparr>errorpod = 0, successpod = 0, podlogstring = '''', deferred = []\<rparr>
         (h @ [NewForConfig None]) = (evs, st, Some a)"
      "a \<noteq> Blocked"
      "assess_job env j items h = (NewForConfig None # evs @ deferred st, Some a)"
  | (checked) evs st where
      "newForConfig env h = None"
      "job_pods env j items \<lparr>errorpod = 0, successpod = 0, podlogstring = '''', deferred = []\<rparr>
         (h @ [NewForConfig None]) = (evs, st, None)"
      "assess_job env j items h =
         (NewForConfig None # evs @ fst (job_checks items st) @ deferred st, snd (job_checks items st))"
proof (cases "newForConfig env h")
  case (Some e)
  then show ?thesis using no_clientset by (simp add: assess_job_def)
next
  case None
  let ?init = "\<lparr>errorpod = 0, successpod = 0, podlogstring = '''', deferred = []\<rparr>"
  obtain evs st r where p: "job_pods env j items ?init (h @ [NewForConfig None]) = (evs, st, r)"
    by (cases "job_pods env j items ?init (h @ [NewForConfig None])")
  show ?thesis
  proof (cases r)
    case n: None
    with None p show ?thesis using checked[of evs st]
      by (simp add: assess_job_def case_prod_beta)
  next
    case (Some a)
    show ?thesis
    proof (cases "a = Blocked")
      case True
      with None p Some show ?thesis using blocked[of evs st] by (simp add: assess_job_def)
    next
      case False
      with None p Some show ?thesis using aborted[of evs st a]
        by (cases a) (simp_all add: assess_job_def)
    qed
  qed
qed

lemma list_ex_filter_length: "list_ex P xs \<Longrightarrow> 1 \<le> length (filter P xs)"
  by (induction xs) auto

lemma assess_job_all_errored:
  assumes "\<forall>i\<in>set items. terminatedReason i = Some ''StartError''"
  shows "verdict (assess_job env j items h) = FAIL"
proof (cases rule: assess_job_cases[where env = env and j = j and items = items and h = h])
  case (no_clientset e)
  then show ?thesis by (simp add: verdict_def)
next
  case (blocked evs st)
  with job_pods_all_errored[OF assms, of env j "\<lparr>errorpod = 0, successpod = 0, podlogstring = '''', deferred = []\<rparr>" "h @ [NewForConfig None]"] show ?thesis
    by auto
next
  case (aborted evs st a)
  with job_pods_all_errored[OF assms, of env j "\<lparr>errorpod = 0, successpod = 0, podlogstring = '''', deferred = []\<rparr>" "h @ [NewForConfig None]"] show ?thesis
    by auto
next
  case (checked evs st)
  from job_pods_all_errored[OF assms, of env j "\<lparr>errorpod = 0, successpod = 0, podlogstring = '''', deferred = []\<rparr>" "h @ [NewForConfig None]"] checked(2)
  have "successpod st = 0" "podlogstring st = ''''" by auto
  then have "list_ex marks_failed (fst (job_checks items st))" "snd (job_checks items st) = None"
    by (simp_all add: job_checks_def Let_def)
  with checked(3) show ?thesis by (simp add: verdict_def)
qed

lemma assess_job_one_completed:
  assumes "length (filter (completed j) items) = 1" "list_ex (errored j) items"
  shows "verdict (assess_job env j items h) = SKIP \<or>
         verdict (assess_job env j items h) = FAIL \<and> snd (assess_job env j items h) = Some FailNow \<or>
         verdict (assess_job env j items h) = CRASH \<or> verdict (assess_job env j items h) = HANG"
proof (cases rule: assess_job_cases[where env = env and j = j and items = items and h = h])
  case (no_clientset e)
  then show ?thesis by (simp add: verdict_def)
next
  case (blocked evs st)
  then show ?thesis by (simp add: verdict_def)
next
  case (aborted evs st a)
  from job_pods_tallied[of j items "\<lparr>errorpod = 0, successpod = 0, podlogstring = '''', deferred = []\<rparr>" env "h @ [NewForConfig None]"] aborted(2)
  have "a \<noteq> SkipNow" "a = FailNow \<longrightarrow> list_ex marks_failed evs" by (simp_all add: tallied_def)
  with aborted(3,4) show ?thesis by (cases a) (simp_all add: verdict_def)
next
  case (checked evs st)
  from job_pods_tallied[of j items "\<lparr>errorpod = 0, successpod = 0, podlogstring = '''', deferred = []\<rparr>" env "h @ [NewForConfig None]"] checked(2)
  have t: "\<not> list_ex marks_failed evs" "\<not> list_ex marks_failed (deferred st)"
    "errorpod st = length (filter (errored j) items)"
    "successpod st = length (filter (completed j) items)"
    by (simp_all add: tallied_def)
  from t(3,4) assms list_ex_filter_length[OF assms(2)]
  have "job_checks items st = ([TSkip ''Expected Completed status on all pods''], Some SkipNow)"
    by (simp add: job_checks_def)
  with checked(3) t(1,2) show ?thesis by (simp add: verdict_def)
qed

lemma assess_job_skips:
  assumes "length (filter (completed j) items) = 1" "list_ex (errored j) items"
    "job_calls_succeed env" "\<forall>i\<in>set items. is_job_pod j i \<longrightarrow> terminatedReason i \<noteq> None"
  shows "verdict (assess_job env j items h) = SKIP"
proof -
  have p: "snd (snd (job_pods env j items st h')) = None" for st h'
    by (rule job_pods_succeed[OF assms(3,4)])
  have n: "newForConfig env h = None" using assms(3) by (simp add: job_calls_succeed_def)
  show ?thesis
  proof (cases rule: assess_job_cases[where env = env and j = j and items = items and h = h])
    case (no_clientset e)
    with n show ?thesis by simp
  next
    case (blocked evs st)
    with p[of "\<lparr>errorpod = 0, successpod = 0, podlogstring = '''', deferred = []\<rparr>"
              "h @ [NewForConfig None]"] show ?thesis by simp
  next
    case (aborted evs st a)
    with p[of "\<lparr>errorpod = 0, successpod = 0, podlogstring = '''', deferred = []\<rparr>"
              "h @ [NewForConfig None]"] show ?thesis by simp
  next
    case (checked evs st)
    from job_pods_tallied[of j items "\<lparr>errorpod = 0, successpod = 0, podlogstring = '''', deferred = []\<rparr>" env "h @ [NewForConfig None]"] checked(2)
    have t: "\<not> list_ex marks_failed evs" "\<not> list_ex marks_failed (deferred st)"
      "errorpod st = length (filter (errored j) items)"
      "successpod st = length (filter (completed j) items)"
      by (simp_all add: tallied_def)
    from t(3,4) assms list_ex_filter_length[OF assms(2)]
    have "job_checks items st = ([TSkip ''Expected Completed status on all pods''], Some SkipNow)"
      by (simp add: job_checks_def)
    with checked(3) t(1,2) show ?thesis by (simp add: verdict_def)
  qed
qed

text \<open>
  C1, as amended. In a case with a job: when every listed pod has terminated with a start
  error (so that no pod of the job completed), the assessment is reported as failed. When
  exactly one pod of the job completed and at least one errored, the assessment never passes
  and never returns: it is skipped, unless it ends first with \<^verbatim>\<open>t.Fatal\<close> on an error of the
  clientset, the watch or the log stream (reported as failed), with a panic, or never; and it
  is skipped whenever those calls succeed and the first container of every pod of the job has
  terminated.
\<close>

theorem job_outcomes:
  "job tc = Some j \<Longrightarrow> listPods env h (Namespace (ObjectMeta (pod tc))) = Inr items \<Longrightarrow>
     ((\<forall>i\<in>set items. terminatedReason i = Some ''StartError'') \<longrightarrow>
        verdict (assess env tc h) = FAIL) \<and>
     (length (filter (completed j) items) = 1 \<and> list_ex (errored j) items \<longrightarrow>
        (verdict (assess env tc h) = SKIP \<or>
         verdict (assess env tc h) = FAIL \<and> snd (assess env tc h) = Some FailNow \<or>
         verdict (assess env tc h) = CRASH \<or> verdict (assess env tc h) = HANG) \<and>
        (job_calls_succeed env \<and> (\<forall>i\<in>set items. is_job_pod j i \<longrightarrow> terminatedReason i \<noteq> None) \<longrightarrow>
           verdict (assess env tc h) = SKIP))"
proof -
  assume j: "job tc = Some j" and l: "listPods env h (Namespace (ObjectMeta (pod tc))) = Inr items"
  let ?h = "h @ [ListPods (Namespace (ObjectMeta (pod tc))) None]"
  have v: "verdict (assess env tc h) = verdict (assess_job env j items ?h)"
    and s: "snd (assess env tc h) = snd (assess_job env j items ?h)"
    by (simp_all add: assess_with_job[OF j l] verdict_def)
  show ?thesis
    unfolding v s
    using assess_job_all_errored[of items env j ?h] assess_job_one_completed[of j items env ?h]
      assess_job_skips[of j items env ?h]
    by blast
qed


lemma assess_all_errored:
  "assess (cluster all_errored) tc_job [] =
     ([ListPods ''default'' None, NewForConfig None,
       TLog [''WARNING:'', ''job-pi-x7k2p'', ''-'', ''StartError''],
       TLog [''WARNING:'', ''job-pi-m2c8d'', ''-'', ''StartError''],
       TErrorf ''Job Failed to Start pod'', TErrorf ''Job Created pod with Invalid log''], None)"
  by (simp add: assess_def all_errored_def job_defs step_defs input_defs)

theorem job_outcomes_witness:
  "job tc_job = Some job_pi \<and>
   listPods (cluster all_errored) [] (Namespace (ObjectMeta (pod tc_job))) = Inr all_errored \<and>
   list_all (\<lambda>i. terminatedReason i = Some ''StartError'') all_errored \<and>
   verdict (assess (cluster all_errored) tc_job []) = FAIL \<and>
   listPods (cluster one_of_two_completed) [] (Namespace (ObjectMeta (pod tc_job)))
     = Inr one_of_two_completed \<and>
   length (filter (completed job_pi) one_of_two_completed) = 1 \<and>
   list_ex (errored job_pi) one_of_two_completed \<and>
   job_calls_succeed (cluster one_of_two_completed) \<and>
   list_all (\<lambda>i. is_job_pod job_pi i \<and> terminatedReason i \<noteq> None) one_of_two_completed \<and>
   verdict (assess (cluster one_of_two_completed) tc_job []) = SKIP"
proof -
  have j: "job tc_job = Some job_pi" by (simp add: tc_job_def)
  have l1: "listPods (cluster all_errored) [] (Namespace (ObjectMeta (pod tc_job))) = Inr all_errored"
    by (simp add: cluster_def)
  have a1: "list_all (\<lambda>i. terminatedReason i = Some ''StartError'') all_errored"
    by (simp add: all_errored_def job_pod_def terminatedReason_def)
  then have a1': "\<forall>i\<in>set all_errored. terminatedReason i = Some ''StartError''"
    by (simp add: list_all_iff)
  have l2: "listPods (cluster one_of_two_completed) [] (Namespace (ObjectMeta (pod tc_job)))
      = Inr one_of_two_completed"
    by (simp add: cluster_def)
  have c: "length (filter (completed job_pi) one_of_two_completed) = 1"
    by (simp add: one_of_two_completed_def completed_def is_job_pod_def label_def job_pod_def
          job_pi_def terminatedReason_def)
  have e: "list_ex (errored job_pi) one_of_two_completed"
    by (simp add: one_of_two_completed_def errored_def is_job_pod_def label_def job_pod_def
          job_pi_def terminatedReason_def)
  have s: "job_calls_succeed (cluster one_of_two_completed)"
    by (simp add: job_calls_succeed_def cluster_def)
  have t: "list_all (\<lambda>i. is_job_pod job_pi i \<and> terminatedReason i \<noteq> None) one_of_two_completed"
    by (simp add: one_of_two_completed_def is_job_pod_def label_def job_pod_def job_pi_def
          terminatedReason_def)
  then have t': "\<forall>i\<in>set one_of_two_completed. is_job_pod job_pi i \<longrightarrow> terminatedReason i \<noteq> None"
    by (simp add: list_all_iff)
  from job_outcomes[OF j l1] a1' have A: "verdict (assess (cluster all_errored) tc_job []) = FAIL"
    by blast
  from job_outcomes[OF j l2] c e s t'
  have B: "verdict (assess (cluster one_of_two_completed) tc_job []) = SKIP" by blast
  from j l1 a1 A l2 c e s t B show ?thesis by blast
qed

text \<open>
  The claim as stated fails: with one pod of the job completed and one errored, a watch that
  cannot be opened ends the assessment with \<^verbatim>\<open>t.Fatal\<close>: the test is reported as failed, not
  skipped.
\<close>

theorem job_outcomes_counterexample:
  "job tc_job = Some job_pi \<and>
   listPods watch_fails [] (Namespace (ObjectMeta (pod tc_job))) = Inr one_of_two_completed \<and>
   length (filter (completed job_pi) one_of_two_completed) = 1 \<and>
   list_ex (errored job_pi) one_of_two_completed \<and>
   assess watch_fails tc_job [] =
     ([ListPods ''default'' None, NewForConfig None,
       TLog [''WARNING:'', ''job-pi-x7k2p'', ''-'', ''StartError''],
       WatchEvents ''default'' (Some ''too many requests''),
       TFatal (FatalErr ''too many requests'')], Some FailNow) \<and>
   verdict (assess watch_fails tc_job []) = FAIL \<and>
   verdict (assess watch_fails tc_job []) \<noteq> SKIP"
proof -
  have a: "assess watch_fails tc_job [] =
     ([ListPods ''default'' None, NewForConfig None,
       TLog [''WARNING:'', ''job-pi-x7k2p'', ''-'', ''StartError''],
       WatchEvents ''default'' (Some ''too many requests''),
       TFatal (FatalErr ''too many requests'')], Some FailNow)"
    by (simp add: assess_def watch_fails_def job_defs step_defs input_defs)
  have c: "length (filter (completed job_pi) one_of_two_completed) = 1"
    by (simp add: one_of_two_completed_def completed_def is_job_pod_def label_def job_pod_def
          job_pi_def terminatedReason_def)
  have e: "list_ex (errored job_pi) one_of_two_completed"
    by (simp add: one_of_two_completed_def errored_def is_job_pod_def label_def job_pod_def
          job_pi_def terminatedReason_def)
  show ?thesis
    by (simp add: a c e verdict_def) (simp add: tc_job_def watch_fails_def cluster_def)
qed

end
